theory Spec2Isabelle
  imports Complex_Main
begin

section \<open>The slideshow widget: data model\<close>

text \<open>
  The class \<open>SimpleSlideshow\<close> of the widget is embedded as a record holding its private
  fields, together with the part of the browser the methods act on: the inline style of
  the rail, the listeners registered on the rail and on the window, and the table of
  pending timers.

  Numbers. A value the source computes or receives as a \<open>number\<close> is a \<open>number\<close> below:
  a double, with NaN and the two infinities, and with the arithmetic of doubles. What the
  browser hands over as a finite double (a measured edge, a \<open>clientX\<close>, a timer delay) is
  the \<open>real\<close> it denotes. Touch identifiers, array positions and loop counters over them
  are integers, on which the arithmetic of doubles is exact. Timer handles and abort
  controllers are positive naturals allocated from a counter.

  Exceptions. A method returns a pair: \<open>None\<close> when it returns normally, \<open>Some e\<close> when it
  throws \<open>e\<close>, and the state of the widget at that moment. The source only throws
  \<open>new Error(message)\<close>; a property read on \<open>undefined\<close> is the \<open>TypeError\<close> of the
  runtime.
\<close>

datatype AnimationName = fade | slide

datatype error = Error string | TypeError

text \<open>What reading \<open>array[index]\<close> gives: an element, or \<open>undefined\<close> out of range.\<close>

datatype 'a JSValue = Undefined | Null | Obj 'a

section \<open>Numbers\<close>

text \<open>
  A JavaScript number: \<open>Num x\<close> is the finite double of value \<open>x\<close>. The two zeros are one
  \<open>Num 0\<close>: the source never divides, and prints and compares both in the same way.
\<close>

datatype number = NaN | NegInfinity | PosInfinity | Num real

text \<open>
  Rounding to the nearest double, ties to even. \<open>exponent y\<close> is the binary exponent of
  \<open>y\<close>, not below that of the subnormal doubles; a double has 53 significant bits, so its
  last bit weighs \<open>2\<close> to the \<open>exponent - 52\<close>. What rounds to \<open>2 ^ 1024\<close> or beyond is
  an infinity.
\<close>

definition roundHalfEven :: "real \<Rightarrow> int" where
  "roundHalfEven x =
     (let f = \<lfloor>x\<rfloor>; d = x - of_int f
      in if d < 1 / 2 then f else if 1 / 2 < d then f + 1 else if even f then f else f + 1)"

fun exponentUp :: "nat \<Rightarrow> real \<Rightarrow> int" where
  "exponentUp 0 y = 0"
| "exponentUp (Suc n) y = (if y < 2 then 0 else 1 + exponentUp n (y / 2))"

fun exponentDown :: "nat \<Rightarrow> real \<Rightarrow> int" where
  "exponentDown 0 y = 0"
| "exponentDown (Suc n) y = (if 1 \<le> y then 0 else exponentDown n (2 * y) - 1)"

definition exponent :: "real \<Rightarrow> int" where
  "exponent y = (if 1 \<le> y then exponentUp 1024 y else exponentDown 1022 y)"

definition fl :: "real \<Rightarrow> number" where
  "fl x =
     (let u = 2 powi (exponent \<bar>x\<bar> - 52);
          r = of_int (roundHalfEven (x / u)) * u
      in if 2 ^ 1024 \<le> r then PosInfinity
         else if r \<le> - (2 ^ 1024) then NegInfinity
         else Num r)"

fun jsNeg :: "number \<Rightarrow> number" where
  "jsNeg NaN = NaN"
| "jsNeg NegInfinity = PosInfinity"
| "jsNeg PosInfinity = NegInfinity"
| "jsNeg (Num x) = Num (- x)"

text \<open>The operators \<open>+\<close>, \<open>-\<close> and \<open>*\<close> of the source.\<close>

fun jsAdd :: "number \<Rightarrow> number \<Rightarrow> number" where
  "jsAdd (Num x) (Num y) = fl (x + y)"
| "jsAdd NaN _ = NaN"
| "jsAdd _ NaN = NaN"
| "jsAdd PosInfinity NegInfinity = NaN"
| "jsAdd NegInfinity PosInfinity = NaN"
| "jsAdd PosInfinity _ = PosInfinity"
| "jsAdd NegInfinity _ = NegInfinity"
| "jsAdd (Num _) b = b"

definition jsSub :: "number \<Rightarrow> number \<Rightarrow> number" where
  "jsSub a b = jsAdd a (jsNeg b)"

text \<open>
  The comparisons \<open>a < b\<close> and \<open>a <= b\<close>, false when an operand is NaN; the source's
  \<open>a > b\<close> and \<open>a >= b\<close> are these with the operands exchanged.
\<close>

fun jsLess :: "number \<Rightarrow> number \<Rightarrow> bool" where
  "jsLess (Num x) (Num y) = (x < y)"
| "jsLess (Num _) PosInfinity = True"
| "jsLess NegInfinity (Num _) = True"
| "jsLess NegInfinity PosInfinity = True"
| "jsLess _ _ = False"

fun jsLessEq :: "number \<Rightarrow> number \<Rightarrow> bool" where
  "jsLessEq (Num x) (Num y) = (x \<le> y)"
| "jsLessEq NaN _ = False"
| "jsLessEq _ NaN = False"
| "jsLessEq NegInfinity _ = True"
| "jsLessEq _ PosInfinity = True"
| "jsLessEq _ _ = False"

fun jsMul :: "number \<Rightarrow> number \<Rightarrow> number" where
  "jsMul (Num x) (Num y) = fl (x * y)"
| "jsMul NaN _ = NaN"
| "jsMul _ NaN = NaN"
| "jsMul PosInfinity b =
     (if jsLess (Num 0) b then PosInfinity else if jsLess b (Num 0) then NegInfinity else NaN)"
| "jsMul NegInfinity b =
     (if jsLess (Num 0) b then NegInfinity else if jsLess b (Num 0) then PosInfinity else NaN)"
| "jsMul (Num x) b = (if 0 < x then b else if x < 0 then jsNeg b else NaN)"

text \<open>
  An integer as a number. Array lengths, array positions and the counters that run over
  them are integers below \<open>2 ^ 32\<close>, which are doubles.
\<close>

definition jsInt :: "int \<Rightarrow> number" where
  "jsInt k = Num (of_int k)"

section \<open>The widget and the page\<close>

record Touch =
  touch_identifier :: int
  touch_clientX :: real

text \<open>A slide or a bullet: the \<open>active\<close> class of its class list, and its style width.\<close>

record HTMLElement =
  el_active :: bool
  el_width :: string

datatype EventTarget = Window | Rail

datatype EventName =
  touchstart | mousedown | touchmove | touchend | mousemove | mouseup | mouseleave | resize

text \<open>
  A registered listener. Every event name has one callback in the source, so the callback
  is determined by \<open>l_type\<close>; \<open>l_signal\<close> is the abort controller whose signal was given
  to \<open>addEventListener\<close>.
\<close>

record Listener =
  l_target :: EventTarget
  l_type :: EventName
  l_signal :: "nat option"

datatype TimerCallback = RefreshCallback | AutoplayCallback

record Timer =
  t_handle :: nat
  t_callback :: TimerCallback
  t_delay :: real
  t_repeat :: bool

record SimpleSlideshow =
  slides :: "HTMLElement list"
  bullets :: "HTMLElement list"
  animation :: "AnimationName option"
  fullWidthSlide :: bool
  skipNextAutoplay :: bool
  activeIndex :: number
  dragStartingPoint :: real
  currentOffset :: number
  autoplayId :: nat
  resizeId :: nat
  touchId :: int
  beingDraggedRemote :: "nat option"
  draggableRemote :: "nat option"
  railStyle_left :: string
  railStyle_width :: string
  railStyle_transition :: string
  listeners :: "Listener list"
  timers :: "Timer list"
  lastController :: nat
  lastTimer :: nat

text \<open>
  What \<open>getBoundingClientRect\<close> returns. The browser computes it from the page, so a
  layout is a function of the state of the widget: a measurement made after a style has
  been written sees the new style. \<open>slideRect_left g i\<close> is the left edge of the element
  stored at position \<open>i\<close> of \<open>slides\<close>.
\<close>

record Geometry =
  viewportRect_width :: real
  viewportRect_left :: real
  railRect_left :: real
  slideRect_left :: "nat \<Rightarrow> real"

type_synonym Layout = "SimpleSlideshow \<Rightarrow> Geometry"

type_synonym Outcome = "error option \<times> SimpleSlideshow"

section \<open>Browser primitives\<close>

text \<open>
  \<open>array[index]\<close> for a number: the element at that position when the number is an integer
  from 0 to below the length, and \<open>undefined\<close> for every other number. \<open>position\<close> is the
  position read.
\<close>

definition position :: "number \<Rightarrow> nat" where
  "position i = (case i of Num x \<Rightarrow> nat \<lfloor>x\<rfloor> | _ \<Rightarrow> 0)"

definition arrayGet :: "'a list \<Rightarrow> number \<Rightarrow> 'a JSValue" where
  "arrayGet xs i =
     (case i of
        Num x \<Rightarrow>
          (if of_int \<lfloor>x\<rfloor> = x \<and> 0 \<le> x \<and> x < real (length xs)
           then Obj (xs ! nat \<lfloor>x\<rfloor>) else Undefined)
      | _ \<Rightarrow> Undefined)"

definition newAbortController :: "SimpleSlideshow \<Rightarrow> nat \<times> SimpleSlideshow" where
  "newAbortController s = (Suc (lastController s), s\<lparr>lastController := Suc (lastController s)\<rparr>)"

definition addEventListener ::
  "EventTarget \<Rightarrow> EventName \<Rightarrow> nat option \<Rightarrow> SimpleSlideshow \<Rightarrow> SimpleSlideshow" where
  "addEventListener tg ty sg s =
     s\<lparr>listeners := listeners s @ [\<lparr>l_target = tg, l_type = ty, l_signal = sg\<rparr>]\<rparr>"

text \<open>Aborting a controller removes every listener registered with its signal.\<close>

definition abort :: "nat \<Rightarrow> SimpleSlideshow \<Rightarrow> SimpleSlideshow" where
  "abort c s = s\<lparr>listeners := filter (\<lambda>l. l_signal l \<noteq> Some c) (listeners s)\<rparr>"

definition setTimer ::
  "TimerCallback \<Rightarrow> real \<Rightarrow> bool \<Rightarrow> SimpleSlideshow \<Rightarrow> nat \<times> SimpleSlideshow" where
  "setTimer cb d rep s =
     (Suc (lastTimer s),
      s\<lparr>timers := timers s @
           [\<lparr>t_handle = Suc (lastTimer s), t_callback = cb, t_delay = d, t_repeat = rep\<rparr>],
        lastTimer := Suc (lastTimer s)\<rparr>)"

definition setTimeout :: "TimerCallback \<Rightarrow> real \<Rightarrow> SimpleSlideshow \<Rightarrow> nat \<times> SimpleSlideshow" where
  "setTimeout cb d s = setTimer cb d False s"

definition setInterval :: "TimerCallback \<Rightarrow> real \<Rightarrow> SimpleSlideshow \<Rightarrow> nat \<times> SimpleSlideshow" where
  "setInterval cb d s = setTimer cb d True s"

text \<open>\<open>clearTimeout\<close> and \<open>clearInterval\<close> share one table of handles.\<close>

definition clearTimeout :: "nat \<Rightarrow> SimpleSlideshow \<Rightarrow> SimpleSlideshow" where
  "clearTimeout h s = s\<lparr>timers := filter (\<lambda>t. t_handle t \<noteq> h) (timers s)\<rparr>"

definition clearInterval :: "nat \<Rightarrow> SimpleSlideshow \<Rightarrow> SimpleSlideshow" where
  "clearInterval h s = clearTimeout h s"

definition isSafeInteger :: "real \<Rightarrow> bool" where
  "isSafeInteger x = (of_int \<lfloor>x\<rfloor> = x \<and> \<bar>x\<bar> \<le> 9007199254740991)"

definition digit :: "nat \<Rightarrow> char" where
  "digit d = ''0123456789'' ! d"

fun decimal :: "nat \<Rightarrow> string" where
  "decimal n = (if n < 10 then [digit n] else decimal (n div 10) @ [digit (n mod 10)])"

declare decimal.simps [simp del]

text \<open>
  \<open>width.toFixed(0)\<close>: the nearest integer, a tie going away from zero, with the sign of
  the argument (so \<open>-0.3\<close> gives \<open>-0\<close>). Finite arguments of magnitude \<open>10^21\<close> and more,
  which the runtime prints in exponent notation, are outside the model.
\<close>

definition toFixed0 :: "number \<Rightarrow> string" where
  "toFixed0 w =
     (case w of
        NaN \<Rightarrow> ''NaN''
      | PosInfinity \<Rightarrow> ''Infinity''
      | NegInfinity \<Rightarrow> ''-Infinity''
      | Num x \<Rightarrow> (if x < 0 then ''-'' else '''') @ decimal (nat \<lfloor>\<bar>x\<bar> + 1 / 2\<rfloor>))"

definition toPixel :: "number \<Rightarrow> string" where
  "toPixel w = toFixed0 w @ ''px''"

section \<open>Geometry probe and commit transition\<close>

definition computeViewportWidth :: "Layout \<Rightarrow> SimpleSlideshow \<Rightarrow> real" where
  "computeViewportWidth L s = viewportRect_width (L s)"

definition computeViewportLeft :: "Layout \<Rightarrow> SimpleSlideshow \<Rightarrow> real" where
  "computeViewportLeft L s = viewportRect_left (L s)"

definition computeRailLeft :: "Layout \<Rightarrow> SimpleSlideshow \<Rightarrow> real" where
  "computeRailLeft L s = railRect_left (L s)"

text \<open>
  \<open>computeSlideLeft\<close> reads \<open>this.slides[index]\<close>, throws \<open>Error("No slide matching index")\<close>
  when the value is \<open>null\<close>, and then calls \<open>getBoundingClientRect\<close> on it: on
  \<open>undefined\<close> that call is a \<open>TypeError\<close>.
\<close>

definition computeSlideLeft :: "Layout \<Rightarrow> SimpleSlideshow \<Rightarrow> number \<Rightarrow> error + real" where
  "computeSlideLeft L s index =
     (let SLIDE = arrayGet (slides s) index in
      if SLIDE = Null then Inl (Error ''No slide matching index'')
      else (case SLIDE of
              Obj _ \<Rightarrow> Inr (slideRect_left (L s) (position index))
            | _ \<Rightarrow> Inl TypeError))"

text \<open>\<open>classList.toggle("active", this.activeIndex === index)\<close> on every element.\<close>

definition toggleActive :: "number \<Rightarrow> HTMLElement list \<Rightarrow> HTMLElement list" where
  "toggleActive a xs =
     map (\<lambda>(index, e). e\<lparr>el_active := (a = jsInt (int index))\<rparr>) (zip [0..<length xs] xs)"

definition updateActive :: "SimpleSlideshow \<Rightarrow> SimpleSlideshow" where
  "updateActive s =
     (let s1 = s\<lparr>slides := toggleActive (activeIndex s) (slides s)\<rparr>
      in s1\<lparr>bullets := toggleActive (activeIndex s1) (bullets s1)\<rparr>)"

definition slideTransition :: "Layout \<Rightarrow> SimpleSlideshow \<Rightarrow> Outcome" where
  "slideTransition L s =
     (let s1 = updateActive (s\<lparr>skipNextAutoplay := True\<rparr>) in
      if animation s1 = Some slide then
        (case computeSlideLeft L s1 (activeIndex s1) of
           Inl e \<Rightarrow> (Some e, s1)
         | Inr SLIDE_OFFSET \<Rightarrow>
             (let RAIL_OFFSET = computeRailLeft L s1;
                  s2 = s1\<lparr>currentOffset := jsSub (Num RAIL_OFFSET) (Num SLIDE_OFFSET)\<rparr>
              in (None, s2\<lparr>railStyle_left := toPixel (currentOffset s2)\<rparr>)))
      else (None, s1))"

section \<open>Navigation\<close>

definition nextSlide :: "Layout \<Rightarrow> SimpleSlideshow \<Rightarrow> Outcome" where
  "nextSlide L s =
     (let s1 = s\<lparr>activeIndex := jsAdd (activeIndex s) (Num 1)\<rparr>;
          s2 = (if jsLessEq (jsInt (int (length (slides s1)))) (activeIndex s1)
                then s1\<lparr>activeIndex := Num 0\<rparr> else s1)
      in slideTransition L s2)"

definition previousSlide :: "Layout \<Rightarrow> SimpleSlideshow \<Rightarrow> Outcome" where
  "previousSlide L s =
     (let s1 = (if jsLess (Num 0) (activeIndex s)
                then s\<lparr>activeIndex := jsSub (activeIndex s) (Num 1)\<rparr>
                else s\<lparr>activeIndex := jsInt (int (length (slides s)) - 1)\<rparr>)
      in slideTransition L s1)"

definition changeSlide :: "Layout \<Rightarrow> number \<Rightarrow> SimpleSlideshow \<Rightarrow> Outcome" where
  "changeSlide L index s =
     (if jsLess index (Num 0) \<or> jsLessEq (jsInt (int (length (slides s)))) index
      then (Some (Error ''Out of bound index''), s)
      else slideTransition L (s\<lparr>activeIndex := index\<rparr>))"

section \<open>Dragging\<close>

text \<open>
  \<open>dragStart\<close> opens the drag session: it does nothing when one is open, and otherwise
  registers the five listeners of the session with the signal of a new controller.
\<close>

definition dragStart :: "real \<Rightarrow> SimpleSlideshow \<Rightarrow> SimpleSlideshow" where
  "dragStart mouse_position s =
     (if beingDraggedRemote s \<noteq> None then s
      else
        (let s1 = s\<lparr>railStyle_transition := ''all 0s linear 0s''\<rparr>;
             s2 = s1\<lparr>dragStartingPoint := mouse_position\<rparr>;
             (c, s3) = newAbortController s2;
             s4 = s3\<lparr>beingDraggedRemote := Some c\<rparr>;
             s5 = addEventListener Window touchmove (Some c) s4;
             s6 = addEventListener Window touchend (Some c) s5;
             s7 = addEventListener Rail mousemove (Some c) s6;
             s8 = addEventListener Rail mouseup (Some c) s7
         in addEventListener Rail mouseleave (Some c) s8))"

definition dragUpdate :: "real \<Rightarrow> SimpleSlideshow \<Rightarrow> SimpleSlideshow" where
  "dragUpdate mouse_position s =
     (if beingDraggedRemote s \<noteq> None then
        (let s1 = s\<lparr>skipNextAutoplay := True\<rparr>;
             OFFSET_DELTA = jsSub (Num mouse_position) (Num (dragStartingPoint s1))
         in s1\<lparr>railStyle_left := toPixel (jsAdd (currentOffset s1) OFFSET_DELTA)\<rparr>)
      else s)"

text \<open>
  The loop of \<open>dragEnd\<close>:
  \<^verbatim>\<open>for (let index = 0; index < LAST_INDEX; ++index) { if (index < new_index) { ... } }\<close>
  The loop does not change the widget; it returns the final \<open>new_index\<close>, or the error
  thrown by \<open>computeSlideLeft\<close>. \<open>LAST_INDEX\<close>, \<open>index\<close> and \<open>new_index\<close> are counters
  over the array, integers that become numbers where they are used as such.
\<close>

function dragEndLoop ::
  "Layout \<Rightarrow> SimpleSlideshow \<Rightarrow> real \<Rightarrow> int \<Rightarrow> int \<Rightarrow> int \<Rightarrow> error + int" where
  "dragEndLoop L s THRESHOLD LAST_INDEX index new_index =
     (if index < LAST_INDEX then
        (if index < new_index then
           (case computeSlideLeft L s (jsInt index) of
              Inl e \<Rightarrow> Inl e
            | Inr LEFT \<Rightarrow>
                dragEndLoop L s THRESHOLD LAST_INDEX (index + 1)
                  (if THRESHOLD \<le> LEFT then index else new_index))
         else dragEndLoop L s THRESHOLD LAST_INDEX (index + 1) new_index)
      else Inr new_index)"
  by pat_completeness auto
termination
  by (relation "measure (\<lambda>(L, s, THRESHOLD, LAST_INDEX, index, new_index). nat (LAST_INDEX - index))")
    auto

declare dragEndLoop.simps [simp del]

definition dragEnd :: "Layout \<Rightarrow> SimpleSlideshow \<Rightarrow> Outcome" where
  "dragEnd L s =
     (case beingDraggedRemote s of
        None \<Rightarrow> (None, s)
      | Some c \<Rightarrow>
          (let s1 = s\<lparr>railStyle_transition := ''''\<rparr>;
               s2 = abort c s1;
               s3 = s2\<lparr>beingDraggedRemote := None\<rparr>;
               s4 = s3\<lparr>touchId := 0\<rparr>;
               THRESHOLD = computeViewportLeft L s4;
               LAST_INDEX = int (length (slides s4)) - 1
           in (case dragEndLoop L s4 THRESHOLD LAST_INDEX 0 LAST_INDEX of
                 Inl e \<Rightarrow> (Some e, s4)
               | Inr new_index \<Rightarrow> slideTransition L (s4\<lparr>activeIndex := jsInt new_index\<rparr>))))"

definition findTouch :: "Touch list \<Rightarrow> SimpleSlideshow \<Rightarrow> Touch option" where
  "findTouch touches s =
     (if touchId s = 0 then None
      else find (\<lambda>touch. touch_identifier touch = touchId s) touches)"

subsection \<open>The listeners\<close>

text \<open>
  The callbacks given to \<open>addEventListener\<close>, named after their event. \<open>preventDefault\<close>
  has no effect on the widget and is left out. \<open>TOUCH instanceof Touch\<close> fails exactly
  when the touch list has no first element, or when \<open>findTouch\<close> found nothing.
\<close>

definition touchstartListener :: "Touch list \<Rightarrow> SimpleSlideshow \<Rightarrow> Outcome" where
  "touchstartListener changedTouches s =
     (if touchId s \<noteq> 0 then (None, s)
      else (case changedTouches of
              TOUCH # _ \<Rightarrow>
                (let s1 = s\<lparr>touchId := touch_identifier TOUCH\<rparr>
                 in (None, dragStart (touch_clientX TOUCH) s1))
            | [] \<Rightarrow> (Some (Error ''Empty TouchList''), s)))"

definition mousedownListener :: "real \<Rightarrow> SimpleSlideshow \<Rightarrow> Outcome" where
  "mousedownListener x s = (None, dragStart x s)"

definition touchmoveListener :: "Touch list \<Rightarrow> SimpleSlideshow \<Rightarrow> Outcome" where
  "touchmoveListener changedTouches s =
     (case findTouch changedTouches s of
        Some TOUCH \<Rightarrow> (None, dragUpdate (touch_clientX TOUCH) s)
      | None \<Rightarrow> (None, s))"

definition touchendListener :: "Layout \<Rightarrow> Touch list \<Rightarrow> SimpleSlideshow \<Rightarrow> Outcome" where
  "touchendListener L changedTouches s =
     (case findTouch changedTouches s of
        Some TOUCH \<Rightarrow> dragEnd L s
      | None \<Rightarrow> (None, s))"

definition mousemoveListener :: "real \<Rightarrow> SimpleSlideshow \<Rightarrow> Outcome" where
  "mousemoveListener x s = (None, dragUpdate x s)"

definition mouseupListener :: "Layout \<Rightarrow> SimpleSlideshow \<Rightarrow> Outcome" where
  "mouseupListener L s = dragEnd L s"

definition mouseleaveListener :: "Layout \<Rightarrow> SimpleSlideshow \<Rightarrow> Outcome" where
  "mouseleaveListener L s = dragEnd L s"

subsection \<open>Enabling and disabling\<close>

definition enableDragging :: "SimpleSlideshow \<Rightarrow> Outcome" where
  "enableDragging s =
     (if animation s \<noteq> Some slide
      then (Some (Error ''Requires a slide animation to enable dragging''), s)
      else if draggableRemote s \<noteq> None then (None, s)
      else
        (let (c, s1) = newAbortController s;
             s2 = s1\<lparr>draggableRemote := Some c\<rparr>;
             s3 = addEventListener Rail touchstart (Some c) s2
         in (None, addEventListener Rail mousedown (Some c) s3)))"

text \<open>
  \<open>disableDragging\<close> calls \<open>dragEnd\<close>, then aborts the controller it reads from the field
  again, then clears the field.
\<close>

definition disableDragging :: "Layout \<Rightarrow> SimpleSlideshow \<Rightarrow> Outcome" where
  "disableDragging L s =
     (if draggableRemote s = None then (None, s)
      else (case dragEnd L s of
              (Some e, s1) \<Rightarrow> (Some e, s1)
            | (None, s1) \<Rightarrow>
                (case draggableRemote s1 of
                   None \<Rightarrow> (Some TypeError, s1)
                 | Some c \<Rightarrow> (None, (abort c s1)\<lparr>draggableRemote := None\<rparr>))))"

text \<open>
  \<open>changeAnimation\<close> does nothing when the animation is the one asked for. Otherwise it
  stores the new one and enables dragging, for the slide animation, or resets the left
  offset of the rail and disables dragging, for any other. The class list of the host
  element, which it also updates, is not part of the state.
\<close>

definition changeAnimation :: "Layout \<Rightarrow> AnimationName \<Rightarrow> SimpleSlideshow \<Rightarrow> Outcome" where
  "changeAnimation L a s =
     (if animation s = Some a then (None, s)
      else
        (let s1 = s\<lparr>animation := Some a\<rparr>
         in if a = slide then enableDragging s1
            else disableDragging L (s1\<lparr>railStyle_left := ''''\<rparr>)))"

section \<open>Autoplay\<close>

definition stopAutoplay :: "SimpleSlideshow \<Rightarrow> SimpleSlideshow" where
  "stopAutoplay s =
     (if autoplayId s \<noteq> 0 then (clearInterval (autoplayId s) s)\<lparr>autoplayId := 0\<rparr> else s)"

definition startAutoplay :: "real \<Rightarrow> SimpleSlideshow \<Rightarrow> Outcome" where
  "startAutoplay delay s =
     (if \<not> isSafeInteger delay \<or> delay < 1
      then (Some (Error ''Autoplay delay must be a safe positive integer''), s)
      else
        (let s1 = stopAutoplay s;
             s2 = s1\<lparr>skipNextAutoplay := False\<rparr>;
             (h, s3) = setInterval AutoplayCallback delay s2
         in (None, s3\<lparr>autoplayId := h\<rparr>)))"

text \<open>The callback given to \<open>setInterval\<close>: one tick of the autoplay.\<close>

definition autoplayCallback :: "Layout \<Rightarrow> SimpleSlideshow \<Rightarrow> Outcome" where
  "autoplayCallback L s =
     (case (if \<not> skipNextAutoplay s then nextSlide L s else (None, s)) of
        (Some e, s1) \<Rightarrow> (Some e, s1)
      | (None, s1) \<Rightarrow> (None, s1\<lparr>skipNextAutoplay := False\<rparr>))"

section \<open>Resize\<close>

definition updateRailWidth :: "Layout \<Rightarrow> SimpleSlideshow \<Rightarrow> SimpleSlideshow" where
  "updateRailWidth L s =
     (let width0 = Num (computeViewportWidth L s);
          width1 = (if animation s = Some slide
                    then jsMul width0 (jsAdd (jsInt (int (length (slides s)))) (Num 4000))
                    else width0)
      in s\<lparr>railStyle_width := toPixel width1\<rparr>)"

definition refresh :: "Layout \<Rightarrow> SimpleSlideshow \<Rightarrow> Outcome" where
  "refresh L s =
     (let s1 = (if resizeId s > 0 then (clearTimeout (resizeId s) s)\<lparr>resizeId := 0\<rparr> else s);
          WIDTH = toPixel (Num (computeViewportWidth L s1));
          s2 = (if fullWidthSlide s1
                then s1\<lparr>slides := map (\<lambda>e. e\<lparr>el_width := WIDTH\<rparr>) (slides s1)\<rparr> else s1);
          s3 = updateRailWidth L s2
      in if animation s3 = Some slide then slideTransition L s3 else (None, s3))"

definition setFullWidthSlide :: "Layout \<Rightarrow> bool \<Rightarrow> SimpleSlideshow \<Rightarrow> SimpleSlideshow" where
  "setFullWidthSlide L flag s =
     (if fullWidthSlide s = flag then s
      else
        (let s1 = s\<lparr>fullWidthSlide := flag\<rparr>
         in if flag then
              (let WIDTH = toPixel (Num (computeViewportWidth L s1))
               in s1\<lparr>slides := map (\<lambda>e. e\<lparr>el_width := WIDTH\<rparr>) (slides s1)\<rparr>)
            else s1\<lparr>slides := map (\<lambda>e. e\<lparr>el_width := ''''\<rparr>) (slides s1)\<rparr>))"

text \<open>The listener \<open>initialize\<close> registers on the window for \<open>resize\<close>.\<close>

definition resizeListener :: "SimpleSlideshow \<Rightarrow> SimpleSlideshow" where
  "resizeListener s =
     (let s1 = (if resizeId s > 0 then clearTimeout (resizeId s) s else s);
          (h, s2) = setTimeout RefreshCallback 500 s1
      in s2\<lparr>resizeId := h\<rparr>)"

definition addResizeListener :: "SimpleSlideshow \<Rightarrow> SimpleSlideshow" where
  "addResizeListener s = addEventListener Window resize None s"

section \<open>Delivery of events and timers\<close>

text \<open>
  An event as the listeners of the widget see it: a touch event carries its
  \<open>changedTouches\<close>, a mouse event its \<open>clientX\<close>. \<open>eventTarget\<close> is the element on
  which the source listens for the event.
\<close>

datatype Event =
  TouchStart "Touch list" | TouchMove "Touch list" | TouchEnd "Touch list"
| MouseDown real | MouseMove real | MouseUp real | MouseLeave real
| Resize

fun eventType :: "Event \<Rightarrow> EventName" where
  "eventType (TouchStart _) = touchstart"
| "eventType (TouchMove _) = touchmove"
| "eventType (TouchEnd _) = touchend"
| "eventType (MouseDown _) = mousedown"
| "eventType (MouseMove _) = mousemove"
| "eventType (MouseUp _) = mouseup"
| "eventType (MouseLeave _) = mouseleave"
| "eventType Resize = resize"

fun eventTarget :: "Event \<Rightarrow> EventTarget" where
  "eventTarget (TouchStart _) = Rail"
| "eventTarget (TouchMove _) = Window"
| "eventTarget (TouchEnd _) = Window"
| "eventTarget (MouseDown _) = Rail"
| "eventTarget (MouseMove _) = Rail"
| "eventTarget (MouseUp _) = Rail"
| "eventTarget (MouseLeave _) = Rail"
| "eventTarget Resize = Window"

fun callListener :: "Layout \<Rightarrow> Event \<Rightarrow> SimpleSlideshow \<Rightarrow> Outcome" where
  "callListener L (TouchStart ts) s = touchstartListener ts s"
| "callListener L (TouchMove ts) s = touchmoveListener ts s"
| "callListener L (TouchEnd ts) s = touchendListener L ts s"
| "callListener L (MouseDown x) s = mousedownListener x s"
| "callListener L (MouseMove x) s = mousemoveListener x s"
| "callListener L (MouseUp x) s = mouseupListener L s"
| "callListener L (MouseLeave x) s = mouseleaveListener L s"
| "callListener L Resize s = (None, resizeListener s)"

text \<open>
  Dispatch calls the listeners that were registered for the event when it arrived, in
  their order, and skips one that an earlier listener has removed. An exception thrown by
  a listener is reported and does not stop the others; the reported errors are returned.
\<close>

fun invokeListeners ::
  "Layout \<Rightarrow> Event \<Rightarrow> Listener list \<Rightarrow> SimpleSlideshow \<Rightarrow> error list \<times> SimpleSlideshow" where
  "invokeListeners L ev [] s = ([], s)"
| "invokeListeners L ev (l # ls) s =
     (if l \<in> set (listeners s) then
        (let (r, s1) = callListener L ev s;
             (es, s2) = invokeListeners L ev ls s1
         in ((case r of None \<Rightarrow> [] | Some e \<Rightarrow> [e]) @ es, s2))
      else invokeListeners L ev ls s)"

definition dispatchEvent :: "Layout \<Rightarrow> Event \<Rightarrow> SimpleSlideshow \<Rightarrow> error list \<times> SimpleSlideshow" where
  "dispatchEvent L ev s =
     invokeListeners L ev
       (filter (\<lambda>l. l_target l = eventTarget ev \<and> l_type l = eventType ev) (listeners s)) s"

fun dispatchAll :: "Layout \<Rightarrow> Event list \<Rightarrow> SimpleSlideshow \<Rightarrow> SimpleSlideshow" where
  "dispatchAll L [] s = s"
| "dispatchAll L (ev # evs) s = dispatchAll L evs (snd (dispatchEvent L ev s))"

text \<open>
  A pending timer fires: a timeout leaves the table, an interval stays, and the callback
  runs. A handle that is not pending does nothing.
\<close>

definition fireTimer :: "Layout \<Rightarrow> nat \<Rightarrow> SimpleSlideshow \<Rightarrow> Outcome" where
  "fireTimer L h s =
     (case find (\<lambda>t. t_handle t = h) (timers s) of
        None \<Rightarrow> (None, s)
      | Some t \<Rightarrow>
          (let s1 = (if t_repeat t then s else clearTimeout h s)
           in (case t_callback t of
                 RefreshCallback \<Rightarrow> refresh L s1
               | AutoplayCallback \<Rightarrow> autoplayCallback L s1)))"

text \<open>A sequence of calls of \<open>nextSlide\<close> and \<open>previousSlide\<close>, stopped by the first exception.\<close>

datatype Navigation = Next | Previous

fun navigate :: "Layout \<Rightarrow> Navigation list \<Rightarrow> SimpleSlideshow \<Rightarrow> Outcome" where
  "navigate L [] s = (None, s)"
| "navigate L (c # cs) s =
     (case (case c of Next \<Rightarrow> nextSlide L s | Previous \<Rightarrow> previousSlide L s) of
        (Some e, s1) \<Rightarrow> (Some e, s1)
      | (None, s1) \<Rightarrow> navigate L cs s1)"

text \<open>
  What happens to the widget between two moments: an event is delivered, a pending timer
  fires, or one of the public methods above is called, by the page or by the click
  listener of an arrow (\<open>previousSlide\<close>, \<open>nextSlide\<close>) or of a bullet (\<open>changeSlide\<close>).
  \<open>perform\<close> gives the widget afterwards, whether the listener or method returned or
  threw. The methods that build the widget and its decoration (\<open>initialize\<close>, \<open>addArrows\<close>,
  \<open>removeArrows\<close>, \<open>addBullets\<close>, \<open>removeBullets\<close>) are not among the actions.
\<close>

datatype Action =
  Deliver Event | Fire nat
| CallNextSlide | CallPreviousSlide | CallChangeSlide number
| CallEnableDragging | CallDisableDragging | CallChangeAnimation AnimationName
| CallStartAutoplay real | CallStopAutoplay | CallRefresh | CallSetFullWidthSlide bool

fun perform :: "Layout \<Rightarrow> Action \<Rightarrow> SimpleSlideshow \<Rightarrow> SimpleSlideshow" where
  "perform L (Deliver ev) s = snd (dispatchEvent L ev s)"
| "perform L (Fire h) s = snd (fireTimer L h s)"
| "perform L CallNextSlide s = snd (nextSlide L s)"
| "perform L CallPreviousSlide s = snd (previousSlide L s)"
| "perform L (CallChangeSlide index) s = snd (changeSlide L index s)"
| "perform L CallEnableDragging s = snd (enableDragging s)"
| "perform L CallDisableDragging s = snd (disableDragging L s)"
| "perform L (CallStartAutoplay delay) s = snd (startAutoplay delay s)"
| "perform L CallStopAutoplay s = stopAutoplay s"
| "perform L CallRefresh s = snd (refresh L s)"
| "perform L (CallChangeAnimation a) s = snd (changeAnimation L a s)"
| "perform L (CallSetFullWidthSlide flag) s = setFullWidthSlide L flag s"

fun performAll :: "Layout \<Rightarrow> Action list \<Rightarrow> SimpleSlideshow \<Rightarrow> SimpleSlideshow" where
  "performAll L [] s = s"
| "performAll L (a # as) s = performAll L as (perform L a s)"

text \<open>
  A mouse-up or a mouse-leave event, or a call of \<open>disableDragging\<close>: by the page, or by
  \<open>changeAnimation\<close> when it is asked for an animation other than the slide animation.
\<close>

fun mouseEndOrDisable :: "Action \<Rightarrow> bool" where
  "mouseEndOrDisable (Deliver (MouseUp _)) = True"
| "mouseEndOrDisable (Deliver (MouseLeave _)) = True"
| "mouseEndOrDisable CallDisableDragging = True"
| "mouseEndOrDisable (CallChangeAnimation a) = (a \<noteq> slide)"
| "mouseEndOrDisable _ = False"

text \<open>The tracked touch identity is 0 before every action of the run.\<close>

fun untrackedRun :: "Layout \<Rightarrow> Action list \<Rightarrow> SimpleSlideshow \<Rightarrow> bool" where
  "untrackedRun L [] s = True"
| "untrackedRun L (a # as) s = (touchId s = 0 \<and> untrackedRun L as (perform L a s))"

section \<open>The specification's threshold rule\<close>

text \<open>
  The rule in the words of the specification: among the slide positions from the first
  to the second-to-last, the earliest one whose left edge is at or to the right of the
  left edge of the viewport; the last position when there is none. \<open>N\<close> is the number of
  slides.
\<close>

definition thresholdRule :: "Geometry \<Rightarrow> nat \<Rightarrow> int" where
  "thresholdRule g N =
     (case find (\<lambda>i. viewportRect_left g \<le> slideRect_left g i) [0..<N - 1] of
        Some i \<Rightarrow> int i
      | None \<Rightarrow> int N - 1)"

text \<open>
  The widget as \<open>dragEnd\<close> has left it when it measures: the transition of the rail
  restored, the listeners of the session \<open>c\<close> removed, the session and the touch forgotten.
\<close>

definition sessionClosed :: "nat \<Rightarrow> SimpleSlideshow \<Rightarrow> SimpleSlideshow" where
  "sessionClosed c s =
     (abort c (s\<lparr>railStyle_transition := ''''\<rparr>))\<lparr>beingDraggedRemote := None, touchId := 0\<rparr>"

section \<open>A widget of three slides\<close>

text \<open>
  The fields as the class initialises them, before \<open>initialize\<close>: no slide, no
  animation chosen, nothing registered.
\<close>

definition newSlideshow :: SimpleSlideshow where
  "newSlideshow =
     \<lparr>slides = [],
      bullets = [],
      animation = None,
      fullWidthSlide = False,
      skipNextAutoplay = False,
      activeIndex = Num 0,
      dragStartingPoint = 0,
      currentOffset = Num 0,
      autoplayId = 0,
      resizeId = 0,
      touchId = 0,
      beingDraggedRemote = None,
      draggableRemote = None,
      railStyle_left = [],
      railStyle_width = [],
      railStyle_transition = [],
      listeners = [],
      timers = [],
      lastController = 0,
      lastTimer = 0\<rparr>"

text \<open>
  The widget after \<open>initialize\<close> with three slides and the default configuration, in a
  viewport 100 pixels wide: slide animation, dragging enabled by controller 1, the resize
  listener registered, no timer armed.
\<close>

definition threeSlides :: SimpleSlideshow where
  "threeSlides =
     \<lparr>slides = replicate 3 \<lparr>el_active = False, el_width = ''100px''\<rparr>,
      bullets = [],
      animation = Some slide,
      fullWidthSlide = True,
      skipNextAutoplay = False,
      activeIndex = Num 0,
      dragStartingPoint = 0,
      currentOffset = Num 0,
      autoplayId = 0,
      resizeId = 0,
      touchId = 0,
      beingDraggedRemote = None,
      draggableRemote = Some 1,
      railStyle_left = '''',
      railStyle_width = ''100px'',
      railStyle_transition = '''',
      listeners =
        [\<lparr>l_target = Rail, l_type = touchstart, l_signal = Some 1\<rparr>,
         \<lparr>l_target = Rail, l_type = mousedown, l_signal = Some 1\<rparr>,
         \<lparr>l_target = Window, l_type = resize, l_signal = None\<rparr>],
      timers = [],
      lastController = 1,
      lastTimer = 0\<rparr>"

text \<open>
  A layout in which the rail has been pulled 70 pixels to the left of a viewport at 0:
  the slides, 100 pixels wide, have their left edges at -70, 30 and 130.
\<close>

definition pulledLayout :: Layout where
  "pulledLayout s =
     \<lparr>viewportRect_width = 100, viewportRect_left = 0, railRect_left = - 70,
      slideRect_left = (\<lambda>i. 100 * real i - 70)\<rparr>"

text \<open>
  A layout at fractional positions: the rail's left edge is the double nearest to -70.3,
  every slide's left edge the double nearest to 30.2. Their exact difference,
  \<open>-100.5 + 2^-48\<close>, is not a double; the subtraction of the runtime gives -100.5.
\<close>

definition fractionLayout :: Layout where
  "fractionLayout s =
     \<lparr>viewportRect_width = 100, viewportRect_left = 0,
      railRect_left = - (4946922715689779 / 70368744177664),
      slideRect_left = (\<lambda>i. 8500544296661811 / 281474976710656)\<rparr>"

text \<open>The widget after \<open>addBullets\<close>: one bullet for each slide, the first one active.\<close>

definition threeBullets :: SimpleSlideshow where
  "threeBullets =
     threeSlides
       \<lparr>bullets :=
          [\<lparr>el_active = True, el_width = []\<rparr>,
           \<lparr>el_active = False, el_width = []\<rparr>,
           \<lparr>el_active = False, el_width = []\<rparr>]\<rparr>"

text \<open>The widget of three slides with the fade animation, its dragging not enabled.\<close>

definition threeFading :: SimpleSlideshow where
  "threeFading =
     threeSlides\<lparr>animation := Some fade, draggableRemote := None, listeners :=
       [\<lparr>l_target = Window, l_type = resize, l_signal = None\<rparr>]\<rparr>"

text \<open>The same widget initialised on a page that has no slide content.\<close>

definition noSlides :: SimpleSlideshow where
  "noSlides = threeSlides\<lparr>slides := []\<rparr>"

section \<open>The table of timers\<close>

text \<open>
  Handles are allocated from the counter \<open>lastTimer\<close>, so the pending timers have
  distinct positive handles that the counter has reached; and the widget keeps the handle
  of its pending resize timeout in \<open>resizeId\<close>. Both hold of a new widget, whose table is
  empty.
\<close>

definition handlesAllocated :: "SimpleSlideshow \<Rightarrow> bool" where
  "handlesAllocated s =
     ((\<forall>t \<in> set (timers s). 0 < t_handle t \<and> t_handle t \<le> lastTimer s)
      \<and> distinct (map t_handle (timers s)))"

definition resizeTimerTracked :: "SimpleSlideshow \<Rightarrow> bool" where
  "resizeTimerTracked s =
     (\<forall>t \<in> set (timers s). t_callback t = RefreshCallback \<longrightarrow> t_handle t = resizeId s)"

text \<open>The pending timers whose callback is the reconciliation pass \<open>refresh\<close>.\<close>

definition resizePending :: "SimpleSlideshow \<Rightarrow> Timer list" where
  "resizePending s = filter (\<lambda>t. t_callback t = RefreshCallback) (timers s)"

text \<open>
  Exactly one reconciliation is pending: it is the timeout whose handle the widget holds,
  and that handle is the last one allocated.
\<close>

definition resizeArmed :: "SimpleSlideshow \<Rightarrow> bool" where
  "resizeArmed s =
     (resizePending s =
        [\<lparr>t_handle = resizeId s, t_callback = RefreshCallback, t_delay = 500, t_repeat = False\<rparr>]
      \<and> resizeId s = lastTimer s)"

text \<open>The events that continue or end a touch gesture.\<close>

fun touchMoveOrEnd :: "Event \<Rightarrow> bool" where
  "touchMoveOrEnd (TouchMove _) = True"
| "touchMoveOrEnd (TouchEnd _) = True"
| "touchMoveOrEnd _ = False"

section \<open>Properties\<close>

subsection \<open>Numbers that are integers\<close>

lemma roundHalfEven_of_int: "roundHalfEven (of_int m) = m"
  by (simp add: roundHalfEven_def)

lemma exponentUp_bounds:
  "1 \<le> y \<Longrightarrow> y < 2 ^ n \<Longrightarrow> 0 \<le> exponentUp f y \<and> exponentUp f y < int n"
proof (induction f arbitrary: y n)
  case 0
  have "n \<noteq> 0" using 0 by (cases n) auto
  then show ?case by simp
next
  case (Suc f)
  have n: "n \<noteq> 0" using Suc.prems by (cases n) auto
  show ?case
  proof (cases "y < 2")
    case True
    then show ?thesis using n by simp
  next
    case False
    obtain m where m: "n = Suc m" using n by (cases n) auto
    have "1 \<le> y / 2" "y / 2 < 2 ^ m"
      using False Suc.prems m by simp_all
    from Suc.IH[OF this] show ?thesis using False m by simp
  qed
qed

text \<open>An integer of magnitude below \<open>2 ^ 53\<close> is a double: rounding leaves it as it is.\<close>

lemma fl_of_int:
  assumes "\<bar>k\<bar> < 2 ^ 53"
  shows "fl (of_int k) = Num (of_int k)"
proof (cases "k = 0")
  case True
  then show ?thesis by (simp add: fl_def roundHalfEven_def)
next
  case False
  let ?e = "exponent \<bar>real_of_int k\<bar>"
  have one: "1 \<le> \<bar>real_of_int k\<bar>"
  proof -
    have "1 \<le> \<bar>k\<bar>" using False by linarith
    then have "real_of_int 1 \<le> real_of_int \<bar>k\<bar>" by (simp only: of_int_le_iff)
    then show ?thesis by simp
  qed
  have small: "\<bar>real_of_int k\<bar> < 2 ^ 53"
  proof -
    have "real_of_int \<bar>k\<bar> < real_of_int (2 ^ 53)" using assms by (simp only: of_int_less_iff)
    then show ?thesis by simp
  qed
  from exponentUp_bounds[OF one small, of 1024]
  have e: "0 \<le> ?e" "?e < 53"
    using one by (simp_all add: exponent_def)
  define n where "n = nat (52 - ?e)"
  have u: "2 powi (?e - 52) = 1 / (2 :: real) ^ n"
    using e by (simp add: n_def power_int_def field_simps)
  have "real_of_int k / (2 powi (?e - 52)) = of_int (k * 2 ^ n)"
    by (simp add: u)
  then have r: "of_int (roundHalfEven (real_of_int k / (2 powi (?e - 52)))) * (2 powi (?e - 52))
        = real_of_int k"
    by (simp only: roundHalfEven_of_int) (simp add: u)
  have "\<bar>real_of_int k\<bar> < 2 ^ 1024"
    using small by (rule less_trans) simp
  then have "\<not> 2 ^ 1024 \<le> real_of_int k" "\<not> real_of_int k \<le> - (2 ^ 1024)"
    by linarith+
  then show ?thesis
    unfolding fl_def Let_def r by simp
qed

lemma jsAdd_int: "\<bar>j + k\<bar> < 2 ^ 53 \<Longrightarrow> jsAdd (jsInt j) (jsInt k) = jsInt (j + k)"
  using fl_of_int[of "j + k"] by (simp add: jsInt_def)

lemma jsSub_int: "\<bar>j - k\<bar> < 2 ^ 53 \<Longrightarrow> jsSub (jsInt j) (jsInt k) = jsInt (j - k)"
  using fl_of_int[of "j - k"] by (simp add: jsInt_def jsSub_def)

lemma jsInt_compare:
  "jsLess (jsInt j) (jsInt k) = (j < k)"
  "jsLessEq (jsInt j) (jsInt k) = (j \<le> k)"
  "(jsInt j = jsInt k) = (j = k)"
  "Num 0 = jsInt 0"
  "Num 1 = jsInt 1"
  by (simp_all add: jsInt_def)

lemma arrayGet_jsInt:
  "arrayGet xs (jsInt k) = (if 0 \<le> k \<and> k < int (length xs) then Obj (xs ! nat k) else Undefined)"
  "position (jsInt k) = nat k"
  by (auto simp add: arrayGet_def position_def jsInt_def)

subsection \<open>Marking, measuring and the commit transition\<close>

lemma length_toggleActive: "length (toggleActive a xs) = length xs"
  by (simp add: toggleActive_def)

lemma updateActive_fields:
  "activeIndex (updateActive s) = activeIndex s"
  "length (slides (updateActive s)) = length (slides s)"
  "length (bullets (updateActive s)) = length (bullets s)"
  "animation (updateActive s) = animation s"
  "skipNextAutoplay (updateActive s) = skipNextAutoplay s"
  "currentOffset (updateActive s) = currentOffset s"
  "railStyle_left (updateActive s) = railStyle_left s"
  "timers (updateActive s) = timers s"
  "listeners (updateActive s) = listeners s"
  "beingDraggedRemote (updateActive s) = beingDraggedRemote s"
  "draggableRemote (updateActive s) = draggableRemote s"
  "touchId (updateActive s) = touchId s"
  "resizeId (updateActive s) = resizeId s"
  "autoplayId (updateActive s) = autoplayId s"
  by (simp_all add: updateActive_def Let_def length_toggleActive)

lemma computeSlideLeft_in_range:
  "0 \<le> i \<Longrightarrow> i < int (length (slides s)) \<Longrightarrow>
   computeSlideLeft L s (jsInt i) = Inr (slideRect_left (L s) (nat i))"
  by (simp add: computeSlideLeft_def arrayGet_jsInt)

lemma computeSlideLeft_out_of_range:
  "i < 0 \<or> int (length (slides s)) \<le> i \<Longrightarrow> computeSlideLeft L s (jsInt i) = Inl TypeError"
  by (auto simp add: computeSlideLeft_def arrayGet_jsInt)

lemma computeSlideLeft_not_an_index:
  "arrayGet (slides s) i = Undefined \<Longrightarrow> computeSlideLeft L s i = Inl TypeError"
  by (simp add: computeSlideLeft_def)

lemma slideTransition_returns:
  assumes "activeIndex s = jsInt k" "0 \<le> k" "k < int (length (slides s))"
  shows "fst (slideTransition L s) = None"
  using assms
  by (simp add: slideTransition_def Let_def updateActive_fields computeSlideLeft_in_range)

lemma slideTransition_fields:
  "activeIndex (snd (slideTransition L s)) = activeIndex s"
  "length (slides (snd (slideTransition L s))) = length (slides s)"
  "animation (snd (slideTransition L s)) = animation s"
  "skipNextAutoplay (snd (slideTransition L s)) = True"
  "timers (snd (slideTransition L s)) = timers s"
  "listeners (snd (slideTransition L s)) = listeners s"
  "beingDraggedRemote (snd (slideTransition L s)) = beingDraggedRemote s"
  "draggableRemote (snd (slideTransition L s)) = draggableRemote s"
  "touchId (snd (slideTransition L s)) = touchId s"
  "resizeId (snd (slideTransition L s)) = resizeId s"
  "autoplayId (snd (slideTransition L s)) = autoplayId s"
  by (simp_all add: slideTransition_def Let_def updateActive_fields split: sum.splits)

subsection \<open>Navigation\<close>

lemma nextSlide_step:
  assumes "length (slides s) < 2 ^ 32" "activeIndex s = jsInt k" "0 \<le> k"
    "k < int (length (slides s))"
  shows "fst (nextSlide L s) = None"
    and "activeIndex (snd (nextSlide L s)) =
           jsInt (if k = int (length (slides s)) - 1 then 0 else k + 1)"
    and "length (slides (snd (nextSlide L s))) = length (slides s)"
proof -
  have "\<bar>k + 1\<bar> < 2 ^ 53"
    using assms(1,3,4) by simp
  then have inc: "jsAdd (jsInt k) (jsInt 1) = jsInt (k + 1)"
    by (rule jsAdd_int)
  show "fst (nextSlide L s) = None"
    using assms(3,4)
    by (auto simp add: nextSlide_def Let_def assms(2) inc jsInt_compare
        intro!: slideTransition_returns)
  show "activeIndex (snd (nextSlide L s)) =
           jsInt (if k = int (length (slides s)) - 1 then 0 else k + 1)"
    using assms(3,4)
    by (auto simp add: nextSlide_def Let_def assms(2) inc jsInt_compare slideTransition_fields)
  show "length (slides (snd (nextSlide L s))) = length (slides s)"
    by (simp add: nextSlide_def Let_def slideTransition_fields)
qed

lemma previousSlide_step:
  assumes "length (slides s) < 2 ^ 32" "activeIndex s = jsInt k" "0 \<le> k"
    "k < int (length (slides s))"
  shows "fst (previousSlide L s) = None"
    and "activeIndex (snd (previousSlide L s)) =
           jsInt (if k = 0 then int (length (slides s)) - 1 else k - 1)"
    and "length (slides (snd (previousSlide L s))) = length (slides s)"
proof -
  have "\<bar>k - 1\<bar> < 2 ^ 53"
    using assms(1,3,4) by simp
  then have dec: "jsSub (jsInt k) (jsInt 1) = jsInt (k - 1)"
    by (rule jsSub_int)
  show "fst (previousSlide L s) = None"
    using assms(3,4)
    by (auto simp add: previousSlide_def Let_def assms(2) dec jsInt_compare
        intro!: slideTransition_returns)
  show "activeIndex (snd (previousSlide L s)) =
           jsInt (if k = 0 then int (length (slides s)) - 1 else k - 1)"
    using assms(3,4)
    by (auto simp add: previousSlide_def Let_def assms(2) dec jsInt_compare
        slideTransition_fields)
  show "length (slides (snd (previousSlide L s))) = length (slides s)"
    by (simp add: previousSlide_def Let_def slideTransition_fields)
qed

lemma navigate_invariant:
  assumes "length (slides s) < 2 ^ 32" "activeIndex s = jsInt k" "0 \<le> k"
    "k < int (length (slides s))"
  shows "fst (navigate L calls s) = None
       \<and> (\<exists>j. activeIndex (snd (navigate L calls s)) = jsInt j
              \<and> 0 \<le> j \<and> j < int (length (slides s)))
       \<and> length (slides (snd (navigate L calls s))) = length (slides s)"
  using assms
proof (induction calls arbitrary: s k)
  case Nil
  then show ?case by auto
next
  case (Cons c cs)
  show ?case
  proof (cases c)
    case Next
    obtain r s1 where r: "nextSlide L s = (r, s1)" by (cases "nextSlide L s")
    let ?j = "if k = int (length (slides s)) - 1 then 0 else k + 1"
    have "r = None" using nextSlide_step(1)[OF Cons.prems, of L] r by simp
    moreover have len: "length (slides s1) = length (slides s)"
      and a: "activeIndex s1 = jsInt ?j"
      using nextSlide_step(2,3)[OF Cons.prems, of L] r by simp_all
    moreover have "0 \<le> ?j" "?j < int (length (slides s1))" "length (slides s1) < 2 ^ 32"
      using Cons.prems len by auto
    ultimately show ?thesis
      using Cons.IH[of s1 ?j] Next r by simp
  next
    case Previous
    obtain r s1 where r: "previousSlide L s = (r, s1)" by (cases "previousSlide L s")
    let ?j = "if k = 0 then int (length (slides s)) - 1 else k - 1"
    have "r = None" using previousSlide_step(1)[OF Cons.prems, of L] r by simp
    moreover have len: "length (slides s1) = length (slides s)"
      and a: "activeIndex s1 = jsInt ?j"
      using previousSlide_step(2,3)[OF Cons.prems, of L] r by simp_all
    moreover have "0 \<le> ?j" "?j < int (length (slides s1))" "length (slides s1) < 2 ^ 32"
      using Cons.prems len by auto
    ultimately show ?thesis
      using Cons.IH[of s1 ?j] Previous r by simp
  qed
qed

text \<open>
  Claim C2. With at least one slide and the active index an integer \<open>k\<close> in range, every
  sequence of calls of \<open>nextSlide\<close> and \<open>previousSlide\<close> returns normally and leaves the
  active index an integer in \<open>[0, N-1]\<close>; \<open>nextSlide\<close> gives 0 at \<open>N-1\<close> and adds 1 elsewhere,
  \<open>previousSlide\<close> gives \<open>N-1\<close> at 0 and subtracts 1 elsewhere. The equations hold at every
  call of a sequence, since every state reached satisfies the hypotheses again. The array
  of slides is a JavaScript array, of fewer than \<open>2 ^ 32\<close> elements, so that adding 1 to
  an index is exact.
\<close>

theorem navigation_keeps_index_in_range:
  assumes "slides s \<noteq> []" and "length (slides s) < 2 ^ 32"
    and "activeIndex s = jsInt k" and "0 \<le> k" and "k < int (length (slides s))"
  shows "fst (navigate L calls s) = None
       \<and> (\<exists>j. activeIndex (snd (navigate L calls s)) = jsInt j
              \<and> 0 \<le> j \<and> j < int (length (slides s)))
       \<and> length (slides (snd (navigate L calls s))) = length (slides s)
       \<and> fst (nextSlide L s) = None
       \<and> activeIndex (snd (nextSlide L s)) =
           jsInt (if k = int (length (slides s)) - 1 then 0 else k + 1)
       \<and> fst (previousSlide L s) = None
       \<and> activeIndex (snd (previousSlide L s)) =
           jsInt (if k = 0 then int (length (slides s)) - 1 else k - 1)"
  using navigate_invariant[OF assms(2-5), of L calls]
    nextSlide_step(1,2)[OF assms(2-5), of L] previousSlide_step(1,2)[OF assms(2-5), of L]
  by simp

theorem navigation_keeps_index_in_range_witness:
  "slides threeSlides \<noteq> [] \<and> length (slides threeSlides) < 2 ^ 32
   \<and> activeIndex threeSlides = jsInt 0
   \<and> (0 :: int) \<le> 0 \<and> 0 < int (length (slides threeSlides))
   \<and> fst (navigate pulledLayout [Previous, Next, Next] threeSlides) = None
   \<and> length (slides (snd (navigate pulledLayout [Previous, Next, Next] threeSlides))) = 3
   \<and> activeIndex (snd (previousSlide pulledLayout threeSlides)) = jsInt 2
   \<and> activeIndex (snd (nextSlide pulledLayout threeSlides)) = jsInt 1"
proof -
  have a: "slides threeSlides \<noteq> []" "length (slides threeSlides) < 2 ^ 32"
    "activeIndex threeSlides = jsInt 0" "(0 :: int) \<le> 0" "0 < int (length (slides threeSlides))"
    by (simp_all add: threeSlides_def jsInt_def)
  have d: "length (slides threeSlides) = 3"
    by (simp add: threeSlides_def)
  show ?thesis
    using navigation_keeps_index_in_range[OF a, of pulledLayout "[Previous, Next, Next]"] a
    by (elim conjE) (simp add: d)
qed

lemma arrayGet_undefined_length:
  "length ys = length xs \<Longrightarrow> arrayGet xs i = Undefined \<Longrightarrow> arrayGet ys i = Undefined"
  by (auto simp add: arrayGet_def split: number.splits if_splits)

lemma slideTransition_throws:
  assumes "animation s = Some slide" "arrayGet (slides s) (activeIndex s) = Undefined"
  shows "fst (slideTransition L s) = Some TypeError"
proof -
  let ?s1 = "updateActive (s\<lparr>skipNextAutoplay := True\<rparr>)"
  have "length (slides ?s1) = length (slides s)"
    by (simp add: updateActive_fields)
  from arrayGet_undefined_length[OF this assms(2)]
  have "computeSlideLeft L ?s1 (activeIndex s) = Inl TypeError"
    by (rule computeSlideLeft_not_an_index)
  then show ?thesis
    using assms(1) by (simp add: slideTransition_def Let_def updateActive_fields)
qed

text \<open>
  Claim C3, as amended. \<open>changeSlide\<close> with a number below 0 or at least \<open>N\<close>, and so
  with every integer outside \<open>[0, N-1]\<close>, throws the error \<open>Out of bound index\<close> (the
  RangeError of the specification) and leaves the whole widget as it was; with an integer
  inside \<open>[0, N-1]\<close> it returns normally and the active index is that integer.
\<close>

theorem changeSlide_checks_range:
  "(jsLess index (Num 0) \<or> jsLessEq (jsInt (int (length (slides s)))) index \<longrightarrow>
      changeSlide L index s = (Some (Error ''Out of bound index''), s))
   \<and> (k < 0 \<or> int (length (slides s)) \<le> k \<longrightarrow>
      changeSlide L (jsInt k) s = (Some (Error ''Out of bound index''), s))
   \<and> (0 \<le> k \<and> k < int (length (slides s)) \<longrightarrow>
      fst (changeSlide L (jsInt k) s) = None
      \<and> activeIndex (snd (changeSlide L (jsInt k) s)) = jsInt k)"
proof -
  have a: "jsLess index (Num 0) \<or> jsLessEq (jsInt (int (length (slides s)))) index \<longrightarrow>
      changeSlide L index s = (Some (Error ''Out of bound index''), s)"
    by (simp add: changeSlide_def)
  have b: "k < 0 \<or> int (length (slides s)) \<le> k \<longrightarrow>
      changeSlide L (jsInt k) s = (Some (Error ''Out of bound index''), s)"
    by (simp add: changeSlide_def jsInt_compare)
  have c: "0 \<le> k \<and> k < int (length (slides s)) \<longrightarrow>
      fst (changeSlide L (jsInt k) s) = None
      \<and> activeIndex (snd (changeSlide L (jsInt k) s)) = jsInt k"
    by (auto simp add: changeSlide_def jsInt_compare slideTransition_fields
        intro!: slideTransition_returns)
  show ?thesis
    using a b c by (intro conjI) assumption+
qed

theorem changeSlide_checks_range_witness:
  "changeSlide pulledLayout (Num (7 / 2)) threeSlides =
     (Some (Error ''Out of bound index''), threeSlides)
   \<and> changeSlide pulledLayout (Num (- (1 / 2))) threeSlides =
     (Some (Error ''Out of bound index''), threeSlides)
   \<and> changeSlide pulledLayout PosInfinity threeSlides =
     (Some (Error ''Out of bound index''), threeSlides)
   \<and> changeSlide pulledLayout (jsInt 3) threeSlides =
     (Some (Error ''Out of bound index''), threeSlides)
   \<and> changeSlide pulledLayout (jsInt (- 1)) threeSlides =
     (Some (Error ''Out of bound index''), threeSlides)
   \<and> fst (changeSlide pulledLayout (jsInt 2) threeSlides) = None
   \<and> activeIndex (snd (changeSlide pulledLayout (jsInt 2) threeSlides)) = jsInt 2"
proof -
  have d: "length (slides threeSlides) = 3"
    by (simp add: threeSlides_def)
  have g: "jsLessEq (jsInt (int (length (slides threeSlides)))) (Num (7 / 2))"
    "jsLess (Num (- (1 / 2))) (Num 0)"
    "jsLessEq (jsInt (int (length (slides threeSlides)))) PosInfinity"
    by (simp_all add: d jsInt_def)
  have i: "int (length (slides threeSlides)) \<le> 3" "(- 1 :: int) < 0"
    "(0 :: int) \<le> 2 \<and> 2 < int (length (slides threeSlides))"
    by (simp_all add: d)
  have w1: "changeSlide pulledLayout (Num (7 / 2)) threeSlides =
     (Some (Error ''Out of bound index''), threeSlides)"
    using changeSlide_checks_range[of "Num (7 / 2)" threeSlides pulledLayout 0] g(1) by blast
  have w2: "changeSlide pulledLayout (Num (- (1 / 2))) threeSlides =
     (Some (Error ''Out of bound index''), threeSlides)"
    using changeSlide_checks_range[of "Num (- (1 / 2))" threeSlides pulledLayout 0] g(2) by blast
  have w3: "changeSlide pulledLayout PosInfinity threeSlides =
     (Some (Error ''Out of bound index''), threeSlides)"
    using changeSlide_checks_range[of PosInfinity threeSlides pulledLayout 0] g(3) by blast
  have w4: "changeSlide pulledLayout (jsInt 3) threeSlides =
     (Some (Error ''Out of bound index''), threeSlides)"
    using changeSlide_checks_range[of NaN threeSlides pulledLayout 3] i(1) by blast
  have w5: "changeSlide pulledLayout (jsInt (- 1)) threeSlides =
     (Some (Error ''Out of bound index''), threeSlides)"
    using changeSlide_checks_range[of NaN threeSlides pulledLayout "- 1"] i(2) by blast
  have w6: "fst (changeSlide pulledLayout (jsInt 2) threeSlides) = None
     \<and> activeIndex (snd (changeSlide pulledLayout (jsInt 2) threeSlides)) = jsInt 2"
    using changeSlide_checks_range[of NaN threeSlides pulledLayout 2] i(3) by blast
  show ?thesis
    using w1 w2 w3 w4 w5 w6 by (intro conjI) (elim conjE, assumption)+
qed

text \<open>
  The guard compares; it does not ask for an integer. On three slides the number 2.5,
  which is outside \<open>[0, 2]\<close>, is not refused: it becomes the active index, and in slide
  animation the measurement of that slide then fails with the \<open>TypeError\<close>, while in fade
  animation the call returns normally. NaN passes the guard in the same way. And 0.5,
  which is inside \<open>[0, 2]\<close>, does not succeed in slide animation.
\<close>

theorem changeSlide_lets_fractions_through:
  "fst (changeSlide pulledLayout (Num (5 / 2)) threeSlides) = Some TypeError
   \<and> activeIndex (snd (changeSlide pulledLayout (Num (5 / 2)) threeSlides)) = Num (5 / 2)
   \<and> fst (changeSlide pulledLayout (Num (5 / 2)) threeFading) = None
   \<and> activeIndex (snd (changeSlide pulledLayout (Num (5 / 2)) threeFading)) = Num (5 / 2)
   \<and> fst (changeSlide pulledLayout NaN threeFading) = None
   \<and> activeIndex (snd (changeSlide pulledLayout NaN threeFading)) = NaN
   \<and> fst (changeSlide pulledLayout (Num (1 / 2)) threeSlides) = Some TypeError
   \<and> activeIndex (snd (changeSlide pulledLayout (Num (1 / 2)) threeSlides)) = Num (1 / 2)"
proof -
  have d: "length (slides threeSlides) = 3" "animation threeSlides = Some slide"
    "length (slides threeFading) = 3" "animation threeFading = Some fade"
    by (simp_all add: threeSlides_def threeFading_def)
  have u: "arrayGet (slides threeSlides) (Num (5 / 2)) = Undefined"
    "arrayGet (slides threeSlides) (Num (1 / 2)) = Undefined"
    by (simp_all add: arrayGet_def)
  have t1: "fst (slideTransition pulledLayout (threeSlides\<lparr>activeIndex := Num (5 / 2)\<rparr>))
      = Some TypeError"
    by (rule slideTransition_throws) (simp_all add: d u)
  have t2: "fst (slideTransition pulledLayout (threeSlides\<lparr>activeIndex := Num (1 / 2)\<rparr>))
      = Some TypeError"
    by (rule slideTransition_throws) (simp_all add: d u)
  have f: "fst (slideTransition pulledLayout (threeFading\<lparr>activeIndex := x\<rparr>)) = None" for x
    by (simp add: slideTransition_def Let_def updateActive_fields d)
  show ?thesis
    by (simp add: changeSlide_def d jsInt_def t1 t2 f slideTransition_fields)
qed

subsection \<open>The end of a drag\<close>

lemma dragEndLoop_found:
  "new_index \<le> index \<Longrightarrow> dragEndLoop L s T LAST index new_index = Inr new_index"
proof (induction L s T LAST index new_index rule: dragEndLoop.induct)
  case (1 L s T LAST index new_index)
  then show ?case by (subst dragEndLoop.simps) simp
qed

lemma dragEndLoop_scan:
  assumes "0 \<le> index" "index \<le> LAST" "LAST = int (length (slides s)) - 1"
  shows "dragEndLoop L s T LAST index LAST =
           Inr (case find (\<lambda>i. T \<le> slideRect_left (L s) i) [nat index..<nat LAST] of
                  Some i \<Rightarrow> int i | None \<Rightarrow> LAST)"
  using assms
proof (induction "nat (LAST - index)" arbitrary: index)
  case 0
  then have "index = LAST" by simp
  then show ?case by (subst dragEndLoop.simps) simp
next
  case (Suc k)
  then have lt: "index < LAST" by linarith
  have left: "computeSlideLeft L s (jsInt index) = Inr (slideRect_left (L s) (nat index))"
    using Suc.prems lt by (intro computeSlideLeft_in_range) auto
  have suc: "nat (index + 1) = Suc (nat index)"
    using Suc.prems(1) by linarith
  have "nat index < nat LAST"
    using Suc.prems(1) lt by linarith
  then have upt: "[nat index..<nat LAST] = nat index # [nat (index + 1)..<nat LAST]"
    by (simp only: suc upt_conv_Cons)
  show ?case
  proof (cases "T \<le> slideRect_left (L s) (nat index)")
    case True
    have "dragEndLoop L s T LAST (index + 1) index = Inr index"
      by (rule dragEndLoop_found) simp
    then show ?thesis
      using True lt left Suc.prems(1)
      by (subst dragEndLoop.simps) (simp add: upt)
  next
    case False
    have "k = nat (LAST - (index + 1))" using Suc.hyps(2) by linarith
    from Suc.hyps(1)[OF this] Suc.prems lt
    have "dragEndLoop L s T LAST (index + 1) LAST =
           Inr (case find (\<lambda>i. T \<le> slideRect_left (L s) i) [nat (index + 1)..<nat LAST] of
                  Some i \<Rightarrow> int i | None \<Rightarrow> LAST)"
      by simp
    then show ?thesis
      using False lt left
      by (subst dragEndLoop.simps) (simp add: upt)
  qed
qed

lemma thresholdRule_range:
  "0 < N \<Longrightarrow> 0 \<le> thresholdRule g N \<and> thresholdRule g N < int N"
  by (auto simp add: thresholdRule_def find_Some_iff split: option.splits)

lemma sessionClosed_fields:
  "slides (sessionClosed c s) = slides s"
  "beingDraggedRemote (sessionClosed c s) = None"
  "touchId (sessionClosed c s) = 0"
  "railStyle_transition (sessionClosed c s) = ''''"
  "listeners (sessionClosed c s) = filter (\<lambda>l. l_signal l \<noteq> Some c) (listeners s)"
  "animation (sessionClosed c s) = animation s"
  "draggableRemote (sessionClosed c s) = draggableRemote s"
  "timers (sessionClosed c s) = timers s"
  by (simp_all add: sessionClosed_def abort_def)

lemma dragEnd_unfold:
  assumes "beingDraggedRemote s = Some c"
  shows "dragEnd L s =
     (case dragEndLoop L (sessionClosed c s) (computeViewportLeft L (sessionClosed c s))
             (int (length (slides s)) - 1) 0 (int (length (slides s)) - 1) of
        Inl e \<Rightarrow> (Some e, sessionClosed c s)
      | Inr new_index \<Rightarrow>
          slideTransition L ((sessionClosed c s)\<lparr>activeIndex := jsInt new_index\<rparr>))"
  using assms
  by (simp add: dragEnd_def Let_def sessionClosed_def abort_def cong: sum.case_cong)

lemma dragEnd_open:
  assumes "beingDraggedRemote s = Some c" "slides s \<noteq> []"
  shows "dragEnd L s =
           slideTransition L
             ((sessionClosed c s)\<lparr>activeIndex :=
                 jsInt (thresholdRule (L (sessionClosed c s)) (length (slides s)))\<rparr>)"
proof -
  let ?s4 = "sessionClosed c s"
  let ?LAST = "int (length (slides s)) - 1"
  have pos: "0 \<le> ?LAST" using assms(2) by (cases "slides s") auto
  have LAST: "?LAST = int (length (slides ?s4)) - 1" by (simp add: sessionClosed_fields)
  have n: "nat ?LAST = length (slides s) - 1" by linarith
  have "dragEndLoop L ?s4 (computeViewportLeft L ?s4) ?LAST 0 ?LAST =
          Inr (thresholdRule (L ?s4) (length (slides s)))"
    unfolding dragEndLoop_scan[OF order_refl pos LAST] thresholdRule_def computeViewportLeft_def n
    by simp
  then show ?thesis
    by (simp add: dragEnd_unfold[OF assms(1)])
qed

lemma thresholdRule_second:
  assumes "2 \<le> N" "slideRect_left g 0 < viewportRect_left g"
    "viewportRect_left g \<le> slideRect_left g 1"
  shows "thresholdRule g N = 1"
proof (cases "N = 2")
  case True
  then show ?thesis using assms by (simp add: thresholdRule_def)
next
  case False
  then have "[0..<N - 1] = 0 # 1 # [2..<N - 1]"
    using assms(1) by (simp add: upt_conv_Cons numeral_2_eq_2)
  then show ?thesis using assms by (simp add: thresholdRule_def)
qed

text \<open>
  Claim C1. When a drag ends on a widget of \<open>N \<ge> 1\<close> slides, \<open>dragEnd\<close> returns normally
  and the index it commits is the integer the threshold rule of the specification gives on
  the geometry measured at that moment: the earliest index among \<open>0, ..., N-2\<close> whose left
  edge is at or to the right of the left edge of the viewport, and \<open>N-1\<close> when there is
  none. In particular, when slide 0 has its left edge to the left of the viewport's (a
  negative left edge, for the viewport at 0 of the specification's example) and slide 1
  has its left edge at or to the right of it, the index committed is 1.
\<close>

theorem dragEnd_commits_threshold_index:
  assumes "beingDraggedRemote s = Some c" and "slides s \<noteq> []"
  shows "fst (dragEnd L s) = None
       \<and> activeIndex (snd (dragEnd L s)) =
           jsInt (thresholdRule (L (sessionClosed c s)) (length (slides s)))
       \<and> (2 \<le> length (slides s)
            \<and> slideRect_left (L (sessionClosed c s)) 0 < viewportRect_left (L (sessionClosed c s))
            \<and> viewportRect_left (L (sessionClosed c s)) \<le> slideRect_left (L (sessionClosed c s)) 1
          \<longrightarrow> activeIndex (snd (dragEnd L s)) = jsInt 1)"
proof -
  let ?g = "L (sessionClosed c s)"
  let ?s5 = "(sessionClosed c s)\<lparr>activeIndex := jsInt (thresholdRule ?g (length (slides s)))\<rparr>"
  have eq: "dragEnd L s = slideTransition L ?s5"
    by (rule dragEnd_open[OF assms])
  have "0 < length (slides s)" using assms(2) by simp
  from thresholdRule_range[OF this, of ?g]
  have "fst (slideTransition L ?s5) = None"
    by (intro slideTransition_returns[where k = "thresholdRule ?g (length (slides s))"])
      (simp_all add: sessionClosed_fields)
  moreover have "activeIndex (snd (slideTransition L ?s5)) =
      jsInt (thresholdRule ?g (length (slides s)))"
    by (simp add: slideTransition_fields)
  ultimately show ?thesis
    using eq thresholdRule_second[of "length (slides s)" ?g]
    by (simp add: slideTransition_fields)
qed

theorem dragEnd_commits_threshold_index_witness:
  "beingDraggedRemote (dragStart 200 threeSlides) = Some 2
   \<and> slides (dragStart 200 threeSlides) \<noteq> []
   \<and> fst (dragEnd pulledLayout (dragStart 200 threeSlides)) = None
   \<and> activeIndex (snd (dragEnd pulledLayout (dragStart 200 threeSlides))) = jsInt 1"
proof -
  have a: "beingDraggedRemote (dragStart 200 threeSlides) = Some 2"
    by (simp add: dragStart_def threeSlides_def newAbortController_def addEventListener_def)
  have b: "slides (dragStart 200 threeSlides) \<noteq> []"
    by (simp add: dragStart_def threeSlides_def newAbortController_def addEventListener_def)
  have c: "length (slides (dragStart 200 threeSlides)) = 3"
    by (simp add: dragStart_def threeSlides_def newAbortController_def addEventListener_def)
  show ?thesis
    using dragEnd_commits_threshold_index[OF a b, of pulledLayout] a b
    by (elim conjE) (simp add: c pulledLayout_def)
qed

subsection \<open>The commit transition in full\<close>

lemma toggleActive_nth:
  "i < length xs \<Longrightarrow> el_active (toggleActive a xs ! i) = (a = jsInt (int i))"
  by (simp add: toggleActive_def)

lemma updateActive_marking:
  "slides (updateActive s) = toggleActive (activeIndex s) (slides s)"
  "bullets (updateActive s) = toggleActive (activeIndex s) (bullets s)"
  by (simp_all add: updateActive_def Let_def)

lemma slideTransition_marking:
  "slides (snd (slideTransition L s)) = toggleActive (activeIndex s) (slides s)"
  "bullets (snd (slideTransition L s)) = toggleActive (activeIndex s) (bullets s)"
  by (simp_all add: slideTransition_def Let_def updateActive_marking updateActive_fields
      split: sum.splits)

lemma slideTransition_slide:
  assumes "animation s = Some slide" "activeIndex s = jsInt k" "0 \<le> k"
    "k < int (length (slides s))"
  shows "slideTransition L s =
     (None, (updateActive (s\<lparr>skipNextAutoplay := True\<rparr>))
        \<lparr>currentOffset :=
           jsSub (Num (railRect_left (L (updateActive (s\<lparr>skipNextAutoplay := True\<rparr>)))))
             (Num (slideRect_left (L (updateActive (s\<lparr>skipNextAutoplay := True\<rparr>))) (nat k))),
         railStyle_left := toPixel
          (jsSub (Num (railRect_left (L (updateActive (s\<lparr>skipNextAutoplay := True\<rparr>)))))
             (Num (slideRect_left (L (updateActive (s\<lparr>skipNextAutoplay := True\<rparr>))) (nat k))))\<rparr>)"
  using assms
  by (simp add: slideTransition_def Let_def updateActive_fields computeSlideLeft_in_range
      computeRailLeft_def)

lemma slideTransition_other:
  assumes "animation s \<noteq> Some slide"
  shows "slideTransition L s = (None, updateActive (s\<lparr>skipNextAutoplay := True\<rparr>))"
  using assms
  by (simp add: slideTransition_def Let_def updateActive_fields)

lemma fractional_offset:
  "jsSub (Num (- (4946922715689779 / 70368744177664))) (Num (8500544296661811 / 281474976710656))
     = Num (- (201 / 2))"
  by code_simp

lemma integral_offset: "jsSub (Num (- 70)) (Num 30) = Num (- 100)"
  using jsSub_int[of "- 70" 30] by (simp add: jsInt_def)

lemma toPixel_examples:
  "toPixel (Num (- 100)) = ''-100px''"
  "toPixel (Num (- (201 / 2))) = ''-101px''"
  by (simp_all add: toPixel_def toFixed0_def decimal.simps digit_def)

text \<open>
  Claim C5. Every call of \<open>slideTransition\<close> leaves the autoplay flag set and marks, among
  the slides and among the bullets, exactly the element at the active index as active.
  In slide animation, with the active index in range (the standing invariant of the
  specification), it returns normally, the offset becomes the rail's left edge minus the
  active slide's left edge, both measured on the widget whose rail has not been moved yet
  and subtracted as the runtime subtracts two doubles, and the pixel string of that offset
  is written to the rail. In any other animation the result is the marked widget and does
  not mention the layout: no measurement is made, and the offset and the rail are as
  before.
\<close>

theorem slideTransition_commit:
  "skipNextAutoplay (snd (slideTransition L s))
   \<and> slides (snd (slideTransition L s)) = toggleActive (activeIndex s) (slides s)
   \<and> bullets (snd (slideTransition L s)) = toggleActive (activeIndex s) (bullets s)
   \<and> (\<forall>i < length (slides s).
         el_active (slides (snd (slideTransition L s)) ! i) = (activeIndex s = jsInt (int i)))
   \<and> (\<forall>i < length (bullets s).
         el_active (bullets (snd (slideTransition L s)) ! i) = (activeIndex s = jsInt (int i)))
   \<and> (animation s = Some slide \<and> activeIndex s = jsInt k \<and> 0 \<le> k
        \<and> k < int (length (slides s)) \<longrightarrow>
         fst (slideTransition L s) = None
         \<and> railStyle_left (updateActive (s\<lparr>skipNextAutoplay := True\<rparr>)) = railStyle_left s
         \<and> currentOffset (snd (slideTransition L s)) =
             jsSub (Num (railRect_left (L (updateActive (s\<lparr>skipNextAutoplay := True\<rparr>)))))
               (Num (slideRect_left (L (updateActive (s\<lparr>skipNextAutoplay := True\<rparr>))) (nat k)))
         \<and> railStyle_left (snd (slideTransition L s)) =
             toPixel (currentOffset (snd (slideTransition L s))))
   \<and> (animation s \<noteq> Some slide \<longrightarrow>
         slideTransition L s = (None, updateActive (s\<lparr>skipNextAutoplay := True\<rparr>))
         \<and> currentOffset (snd (slideTransition L s)) = currentOffset s
         \<and> railStyle_left (snd (slideTransition L s)) = railStyle_left s)"
proof -
  have flag: "skipNextAutoplay (snd (slideTransition L s))"
    by (simp add: slideTransition_fields)
  have marks:
    "\<forall>i < length (slides s).
        el_active (slides (snd (slideTransition L s)) ! i) = (activeIndex s = jsInt (int i))"
    "\<forall>i < length (bullets s).
        el_active (bullets (snd (slideTransition L s)) ! i) = (activeIndex s = jsInt (int i))"
    by (simp_all add: slideTransition_marking toggleActive_nth)
  have sl: "animation s = Some slide \<and> activeIndex s = jsInt k \<and> 0 \<le> k
        \<and> k < int (length (slides s)) \<longrightarrow>
         fst (slideTransition L s) = None
         \<and> railStyle_left (updateActive (s\<lparr>skipNextAutoplay := True\<rparr>)) = railStyle_left s
         \<and> currentOffset (snd (slideTransition L s)) =
             jsSub (Num (railRect_left (L (updateActive (s\<lparr>skipNextAutoplay := True\<rparr>)))))
               (Num (slideRect_left (L (updateActive (s\<lparr>skipNextAutoplay := True\<rparr>))) (nat k)))
         \<and> railStyle_left (snd (slideTransition L s)) =
             toPixel (currentOffset (snd (slideTransition L s)))"
    by (simp add: slideTransition_slide[where k = k] updateActive_fields)
  have ot: "animation s \<noteq> Some slide \<longrightarrow>
         slideTransition L s = (None, updateActive (s\<lparr>skipNextAutoplay := True\<rparr>))
         \<and> currentOffset (snd (slideTransition L s)) = currentOffset s
         \<and> railStyle_left (snd (slideTransition L s)) = railStyle_left s"
    by (simp add: slideTransition_other updateActive_fields)
  show ?thesis
    using flag marks sl ot slideTransition_marking[of L s] by blast
qed

theorem slideTransition_commit_witness:
  "animation (threeBullets\<lparr>activeIndex := jsInt 1\<rparr>) = Some slide
   \<and> activeIndex (threeBullets\<lparr>activeIndex := jsInt 1\<rparr>) = jsInt 1
   \<and> (0::int) \<le> 1
   \<and> 1 < int (length (slides (threeBullets\<lparr>activeIndex := jsInt 1\<rparr>)))
   \<and> currentOffset (snd (slideTransition pulledLayout (threeBullets\<lparr>activeIndex := jsInt 1\<rparr>)))
       = Num (- 100)
   \<and> railStyle_left (snd (slideTransition pulledLayout (threeBullets\<lparr>activeIndex := jsInt 1\<rparr>)))
       = ''-100px''
   \<and> currentOffset (snd (slideTransition fractionLayout (threeBullets\<lparr>activeIndex := jsInt 1\<rparr>)))
       = Num (- (201 / 2))
   \<and> railStyle_left (snd (slideTransition fractionLayout (threeBullets\<lparr>activeIndex := jsInt 1\<rparr>)))
       = ''-101px''
   \<and> el_active (slides (snd (slideTransition pulledLayout (threeBullets\<lparr>activeIndex := jsInt 1\<rparr>))) ! 1)
   \<and> el_active (bullets (snd (slideTransition pulledLayout (threeBullets\<lparr>activeIndex := jsInt 1\<rparr>))) ! 1)
   \<and> \<not> el_active (bullets (snd (slideTransition pulledLayout (threeBullets\<lparr>activeIndex := jsInt 1\<rparr>))) ! 0)
   \<and> animation (threeBullets\<lparr>animation := Some fade\<rparr>) \<noteq> Some slide
   \<and> currentOffset (snd (slideTransition pulledLayout (threeBullets\<lparr>animation := Some fade\<rparr>)))
       = Num 0
   \<and> railStyle_left (snd (slideTransition pulledLayout (threeBullets\<lparr>animation := Some fade\<rparr>))) = ''''"
proof -
  let ?w = "threeBullets\<lparr>activeIndex := jsInt 1\<rparr>"
  let ?f = "threeBullets\<lparr>animation := Some fade\<rparr>"
  have h: "animation ?w = Some slide" "activeIndex ?w = jsInt 1" "(0::int) \<le> 1"
    "1 < int (length (slides ?w))"
    by (simp_all add: threeBullets_def threeSlides_def)
  have n: "length (slides ?w) = 3" "length (bullets ?w) = 3"
    by (simp_all add: threeBullets_def threeSlides_def)
  have f: "animation ?f \<noteq> Some slide" "currentOffset ?f = Num 0" "railStyle_left ?f = ''''"
    by (simp_all add: threeBullets_def threeSlides_def)
  have g: "jsSub (Num (railRect_left (pulledLayout x))) (Num (slideRect_left (pulledLayout x) (nat 1)))
             = Num (- 100)" for x
    using integral_offset by (simp add: pulledLayout_def)
  have g': "jsSub (Num (railRect_left (fractionLayout x)))
              (Num (slideRect_left (fractionLayout x) (nat 1))) = Num (- (201 / 2))" for x
    using fractional_offset by (simp add: fractionLayout_def)
  note W = slideTransition_commit[of pulledLayout ?w 1]
  note V = slideTransition_commit[of fractionLayout ?w 1]
  note F = slideTransition_commit[of pulledLayout ?f 0]
  have w1: "currentOffset (snd (slideTransition pulledLayout ?w)) = Num (- 100)"
    using W h g by (elim conjE) simp
  have w2: "railStyle_left (snd (slideTransition pulledLayout ?w)) = ''-100px''"
    using W h toPixel_examples(1) unfolding w1 by (elim conjE) simp
  have v1: "currentOffset (snd (slideTransition fractionLayout ?w)) = Num (- (201 / 2))"
    using V h g' by (elim conjE) simp
  have v2: "railStyle_left (snd (slideTransition fractionLayout ?w)) = ''-101px''"
    using V h toPixel_examples(2) unfolding v1 by (elim conjE) simp
  have sl: "\<forall>i < length (slides ?w).
          el_active (slides (snd (slideTransition pulledLayout ?w)) ! i)
            = (activeIndex ?w = jsInt (int i))"
    using W by (elim conjE) assumption
  have bl: "\<forall>i < length (bullets ?w).
          el_active (bullets (snd (slideTransition pulledLayout ?w)) ! i)
            = (activeIndex ?w = jsInt (int i))"
    using W by (elim conjE) assumption
  have w3: "el_active (slides (snd (slideTransition pulledLayout ?w)) ! 1)"
    using sl[THEN spec, of 1] unfolding n by (simp add: jsInt_def)
  have w4: "el_active (bullets (snd (slideTransition pulledLayout ?w)) ! 1)"
    using bl[THEN spec, of 1] unfolding n by (simp add: jsInt_def)
  have w5: "\<not> el_active (bullets (snd (slideTransition pulledLayout ?w)) ! 0)"
    using bl[THEN spec, of 0] unfolding n by (simp add: jsInt_def)
  have f1: "currentOffset (snd (slideTransition pulledLayout ?f)) = Num 0"
    using F f by (elim conjE) (simp add: updateActive_fields)
  have f2: "railStyle_left (snd (slideTransition pulledLayout ?f)) = ''''"
    using F f by (elim conjE) (simp add: updateActive_fields)
  show ?thesis
    using h f(1) w1 w2 v1 v2 w3 w4 w5 f1 f2 by (intro conjI) assumption+
qed

text \<open>
  Claim C4. On a widget of three slides, \<open>computeSlideLeft\<close> at the indices 3 and -1
  does fail, but with the \<open>TypeError\<close> of reading a property of \<open>undefined\<close>: the
  designated error \<open>No slide matching index\<close> is guarded by a comparison with \<open>null\<close>,
  which an array read never yields. At index 2 the measured left edge is returned. The
  public \<open>nextSlide\<close> reaches the failure on a widget without slides.
\<close>

theorem computeSlideLeft_undefined_slide:
  "computeSlideLeft pulledLayout threeSlides (jsInt 3) = Inl TypeError
   \<and> computeSlideLeft pulledLayout threeSlides (jsInt (- 1)) = Inl TypeError
   \<and> computeSlideLeft pulledLayout threeSlides (jsInt 2) = Inr 130
   \<and> fst (nextSlide pulledLayout noSlides) = Some TypeError"
proof -
  have a: "computeSlideLeft pulledLayout threeSlides (jsInt 3) = Inl TypeError"
    by (simp add: computeSlideLeft_def arrayGet_def jsInt_def threeSlides_def Let_def)
  have b: "computeSlideLeft pulledLayout threeSlides (jsInt (- 1)) = Inl TypeError"
    by (simp add: computeSlideLeft_def arrayGet_def jsInt_def threeSlides_def Let_def)
  have c: "computeSlideLeft pulledLayout threeSlides (jsInt 2) = Inr 130"
    by (simp add: computeSlideLeft_def arrayGet_def jsInt_def position_def threeSlides_def
        pulledLayout_def Let_def)
  have one: "fl 1 = Num 1"
    using fl_of_int[of 1] by simp
  have d: "fst (nextSlide pulledLayout noSlides) = Some TypeError"
    by (simp add: nextSlide_def one jsInt_def slideTransition_def updateActive_def
        toggleActive_def computeSlideLeft_def arrayGet_def noSlides_def threeSlides_def Let_def)
  show ?thesis using a b c d by (intro conjI)
qed

subsection \<open>Autoplay\<close>

lemma startAutoplay_invalid:
  "\<not> (isSafeInteger delay \<and> 1 \<le> delay) \<Longrightarrow>
   startAutoplay delay s = (Some (Error ''Autoplay delay must be a safe positive integer''), s)"
  by (auto simp add: startAutoplay_def)

lemma stopAutoplay_fields:
  "timers (stopAutoplay s) =
     (if autoplayId s \<noteq> 0 then filter (\<lambda>t. t_handle t \<noteq> autoplayId s) (timers s) else timers s)"
  "lastTimer (stopAutoplay s) = lastTimer s"
  "activeIndex (stopAutoplay s) = activeIndex s"
  "slides (stopAutoplay s) = slides s"
  "resizeId (stopAutoplay s) = resizeId s"
  by (simp_all add: stopAutoplay_def clearInterval_def clearTimeout_def)

lemma startAutoplay_valid:
  assumes "isSafeInteger delay" "1 \<le> delay"
  shows "startAutoplay delay s =
     (None, (stopAutoplay s)
        \<lparr>skipNextAutoplay := False,
         timers := timers (stopAutoplay s) @
           [\<lparr>t_handle = Suc (lastTimer s), t_callback = AutoplayCallback,
             t_delay = delay, t_repeat = True\<rparr>],
         lastTimer := Suc (lastTimer s),
         autoplayId := Suc (lastTimer s)\<rparr>)"
  using assms
  by (simp add: startAutoplay_def Let_def setInterval_def setTimer_def stopAutoplay_fields)

lemma find_fresh_handle:
  assumes "\<forall>t \<in> set ts. t_handle t \<noteq> h" "t_handle T = h"
  shows "find (\<lambda>t. t_handle t = h) (ts @ [T]) = Some T"
  using assms by (induction ts) auto

lemma startAutoplay_armed:
  assumes "handlesAllocated s" "isSafeInteger delay" "1 \<le> delay"
  shows "find (\<lambda>t. t_handle t = Suc (lastTimer s)) (timers (snd (startAutoplay delay s))) =
           Some \<lparr>t_handle = Suc (lastTimer s), t_callback = AutoplayCallback,
                 t_delay = delay, t_repeat = True\<rparr>"
proof -
  have "\<forall>t \<in> set (timers (stopAutoplay s)). t_handle t \<noteq> Suc (lastTimer s)"
  proof
    fix t assume "t \<in> set (timers (stopAutoplay s))"
    then have "t \<in> set (timers s)"
      by (simp add: stopAutoplay_fields split: if_splits)
    then have "t_handle t \<le> lastTimer s"
      using assms(1) by (simp add: handlesAllocated_def)
    then show "t_handle t \<noteq> Suc (lastTimer s)" by simp
  qed
  then show ?thesis
    by (simp add: startAutoplay_valid[OF assms(2,3)] find_fresh_handle)
qed

lemma fireTimer_autoplay:
  assumes "find (\<lambda>t. t_handle t = h) (timers x) =
             Some \<lparr>t_handle = h, t_callback = AutoplayCallback, t_delay = d, t_repeat = True\<rparr>"
  shows "fireTimer L h x = autoplayCallback L x"
  using assms by (simp add: fireTimer_def)

lemma autoplayCallback_skip:
  "skipNextAutoplay x \<Longrightarrow> autoplayCallback L x = (None, x\<lparr>skipNextAutoplay := False\<rparr>)"
  by (simp add: autoplayCallback_def)

lemma autoplayCallback_advance:
  "\<not> skipNextAutoplay x \<Longrightarrow>
   autoplayCallback L x =
     (case nextSlide L x of
        (Some e, x1) \<Rightarrow> (Some e, x1)
      | (None, x1) \<Rightarrow> (None, x1\<lparr>skipNextAutoplay := False\<rparr>))"
  by (simp add: autoplayCallback_def)

lemma nextSlide_fields:
  "timers (snd (nextSlide L s)) = timers s"
  "skipNextAutoplay (snd (nextSlide L s)) = True"
  "length (slides (snd (nextSlide L s))) = length (slides s)"
  by (simp_all add: nextSlide_def Let_def slideTransition_fields)

lemma startAutoplay_keeps:
  assumes "isSafeInteger delay" "1 \<le> delay"
  shows "activeIndex (snd (startAutoplay delay s)) = activeIndex s"
    and "slides (snd (startAutoplay delay s)) = slides s"
    and "autoplayId (snd (startAutoplay delay s)) = Suc (lastTimer s)"
    and "\<not> skipNextAutoplay (snd (startAutoplay delay s))"
    and "fst (startAutoplay delay s) = None"
  by (simp_all add: startAutoplay_valid[OF assms] stopAutoplay_fields)

lemma autoplay_scenario:
  fixes s :: SimpleSlideshow and delay :: real and L0 L1 L2 :: Layout and k :: int
  assumes wf: "handlesAllocated s" and d: "isSafeInteger delay" "1 \<le> delay"
    and bound: "length (slides s) < 2 ^ 32"
    and ix: "activeIndex s = jsInt k" and lo: "0 \<le> k" and hi: "k < int (length (slides s))"
  defines "s0 \<equiv> snd (startAutoplay delay s)"
  defines "h \<equiv> autoplayId s0"
  defines "s1 \<equiv> snd (nextSlide L0 s0)"
  defines "s2 \<equiv> snd (fireTimer L1 h s1)"
  defines "s3 \<equiv> snd (fireTimer L2 h s2)"
  defines "k1 \<equiv> (if k = int (length (slides s)) - 1 then 0 else k + 1)"
  shows "find (\<lambda>t. t_handle t = h) (timers s0) =
           Some \<lparr>t_handle = h, t_callback = AutoplayCallback, t_delay = delay, t_repeat = True\<rparr>"
    and "fireTimer L1 h s0 = autoplayCallback L1 s0"
    and "fst (nextSlide L0 s0) = None"
    and "skipNextAutoplay s1"
    and "fireTimer L1 h s1 = (None, s1\<lparr>skipNextAutoplay := False\<rparr>)"
    and "activeIndex s2 = activeIndex s1"
    and "fireTimer L2 h s2 = (None, (snd (nextSlide L2 s2))\<lparr>skipNextAutoplay := False\<rparr>)"
    and "activeIndex s1 = jsInt k1"
    and "activeIndex s3 = jsInt (if k1 = int (length (slides s)) - 1 then 0 else k1 + 1)"
proof -
  have h: "h = Suc (lastTimer s)"
    by (simp add: h_def s0_def startAutoplay_keeps[OF d])
  show armed: "find (\<lambda>t. t_handle t = h) (timers s0) =
           Some \<lparr>t_handle = h, t_callback = AutoplayCallback, t_delay = delay, t_repeat = True\<rparr>"
    unfolding h s0_def by (rule startAutoplay_armed[OF wf d])
  show "fireTimer L1 h s0 = autoplayCallback L1 s0"
    by (rule fireTimer_autoplay[OF armed])
  have len0: "length (slides s0) = length (slides s)"
    by (simp add: s0_def startAutoplay_keeps[OF d])
  have r0: "length (slides s0) < 2 ^ 32" "activeIndex s0 = jsInt k" "0 \<le> k"
    "k < int (length (slides s0))"
    using bound ix lo hi by (simp_all add: s0_def startAutoplay_keeps[OF d])
  show "fst (nextSlide L0 s0) = None"
    by (rule nextSlide_step(1)[OF r0])
  have len1: "length (slides s1) = length (slides s)"
    using nextSlide_step(3)[OF r0, of L0] len0 by (simp add: s1_def)
  show a1: "activeIndex s1 = jsInt k1"
    using nextSlide_step(2)[OF r0, of L0] len0 by (simp add: s1_def k1_def)
  have k1: "0 \<le> k1" "k1 < int (length (slides s))"
    using lo hi by (auto simp add: k1_def)
  show skip1: "skipNextAutoplay s1"
    by (simp add: s1_def nextSlide_fields)
  have armed1: "find (\<lambda>t. t_handle t = h) (timers s1) =
           Some \<lparr>t_handle = h, t_callback = AutoplayCallback, t_delay = delay, t_repeat = True\<rparr>"
    using armed by (simp add: s1_def nextSlide_fields)
  show tick1: "fireTimer L1 h s1 = (None, s1\<lparr>skipNextAutoplay := False\<rparr>)"
    by (simp add: fireTimer_autoplay[OF armed1] autoplayCallback_skip[OF skip1])
  then have s2: "s2 = s1\<lparr>skipNextAutoplay := False\<rparr>"
    by (simp add: s2_def)
  show "activeIndex s2 = activeIndex s1"
    by (simp add: s2)
  have r2: "length (slides s2) < 2 ^ 32" "activeIndex s2 = jsInt k1" "0 \<le> k1"
    "k1 < int (length (slides s2))"
    using bound a1 k1 len1 by (simp_all add: s2)
  have armed2: "find (\<lambda>t. t_handle t = h) (timers s2) =
           Some \<lparr>t_handle = h, t_callback = AutoplayCallback, t_delay = delay, t_repeat = True\<rparr>"
    using armed1 by (simp add: s2)
  have noskip2: "\<not> skipNextAutoplay s2"
    by (simp add: s2)
  obtain r x where nx: "nextSlide L2 s2 = (r, x)"
    by (cases "nextSlide L2 s2")
  have "r = None"
    using nextSlide_step(1)[OF r2, of L2] nx by simp
  then show tick2: "fireTimer L2 h s2 = (None, (snd (nextSlide L2 s2))\<lparr>skipNextAutoplay := False\<rparr>)"
    using nx by (simp add: fireTimer_autoplay[OF armed2] autoplayCallback_advance[OF noskip2])
  have "activeIndex s3 = activeIndex (snd (nextSlide L2 s2))"
    by (simp add: s3_def tick2)
  then show "activeIndex s3 = jsInt (if k1 = int (length (slides s)) - 1 then 0 else k1 + 1)"
    using nextSlide_step(2)[OF r2, of L2] len1 by (simp add: s2)
qed

text \<open>
  Claim C6. \<open>startAutoplay\<close> with a delay that is not a safe integer or is below 1, such
  as 0 or -5, throws the validation error and leaves the widget, its timers included, as
  it was. A tick that finds the flag set clears it and changes nothing else; a tick that
  finds it clear calls \<open>nextSlide\<close> and then clears the flag. On a widget whose timer handles
  come from the counter and whose index is in range (the slides being an array, of fewer
  than \<open>2^32\<close> elements), \<open>startAutoplay\<close> with a valid delay returns normally with the flag
  clear and arms an interval, under the handle it stores, whose callback is the tick;
  after one manual \<open>nextSlide\<close> the first tick clears the flag and leaves the index where
  the manual call put it, and the second tick advances it by the rule of \<open>nextSlide\<close>.
\<close>

theorem autoplay_tick_suppression:
  fixes s x :: SimpleSlideshow and delay d :: real and L L0 L1 L2 :: Layout and k :: int
  shows
  "(\<not> (isSafeInteger d \<and> 1 \<le> d) \<longrightarrow>
      startAutoplay d x = (Some (Error ''Autoplay delay must be a safe positive integer''), x))
   \<and> startAutoplay 0 x = (Some (Error ''Autoplay delay must be a safe positive integer''), x)
   \<and> startAutoplay (- 5) x = (Some (Error ''Autoplay delay must be a safe positive integer''), x)
   \<and> (skipNextAutoplay x \<longrightarrow> autoplayCallback L x = (None, x\<lparr>skipNextAutoplay := False\<rparr>))
   \<and> (\<not> skipNextAutoplay x \<longrightarrow>
        autoplayCallback L x =
          (case nextSlide L x of
             (Some e, x1) \<Rightarrow> (Some e, x1)
           | (None, x1) \<Rightarrow> (None, x1\<lparr>skipNextAutoplay := False\<rparr>)))
   \<and> (handlesAllocated s \<and> isSafeInteger delay \<and> 1 \<le> delay
        \<and> length (slides s) < 2 ^ 32
        \<and> activeIndex s = jsInt k \<and> 0 \<le> k \<and> k < int (length (slides s)) \<longrightarrow>
        (let s0 = snd (startAutoplay delay s);
             h = autoplayId s0;
             s1 = snd (nextSlide L0 s0);
             s2 = snd (fireTimer L1 h s1);
             s3 = snd (fireTimer L2 h s2);
             k1 = (if k = int (length (slides s)) - 1 then 0 else k + 1)
         in fst (startAutoplay delay s) = None
            \<and> \<not> skipNextAutoplay s0
            \<and> find (\<lambda>t. t_handle t = h) (timers s0) =
                Some \<lparr>t_handle = h, t_callback = AutoplayCallback,
                      t_delay = delay, t_repeat = True\<rparr>
            \<and> fireTimer L1 h s0 = autoplayCallback L1 s0
            \<and> fst (nextSlide L0 s0) = None
            \<and> skipNextAutoplay s1
            \<and> fireTimer L1 h s1 = (None, s1\<lparr>skipNextAutoplay := False\<rparr>)
            \<and> activeIndex s2 = activeIndex s1
            \<and> fireTimer L2 h s2 = (None, (snd (nextSlide L2 s2))\<lparr>skipNextAutoplay := False\<rparr>)
            \<and> activeIndex s1 = jsInt k1
            \<and> activeIndex s3 = jsInt (if k1 = int (length (slides s)) - 1 then 0 else k1 + 1)))"
proof -
  have inv: "\<not> (isSafeInteger d \<and> 1 \<le> d) \<longrightarrow>
      startAutoplay d x = (Some (Error ''Autoplay delay must be a safe positive integer''), x)"
    using startAutoplay_invalid[of d x] by blast
  have zero: "startAutoplay 0 x = (Some (Error ''Autoplay delay must be a safe positive integer''), x)"
    by (rule startAutoplay_invalid) simp
  have neg: "startAutoplay (- 5) x = (Some (Error ''Autoplay delay must be a safe positive integer''), x)"
    by (rule startAutoplay_invalid) simp
  have skip: "skipNextAutoplay x \<longrightarrow> autoplayCallback L x = (None, x\<lparr>skipNextAutoplay := False\<rparr>)"
    by (simp add: autoplayCallback_skip)
  have adv: "\<not> skipNextAutoplay x \<longrightarrow>
        autoplayCallback L x =
          (case nextSlide L x of
             (Some e, x1) \<Rightarrow> (Some e, x1)
           | (None, x1) \<Rightarrow> (None, x1\<lparr>skipNextAutoplay := False\<rparr>))"
    using autoplayCallback_advance[of x L] by blast
  have scen: "handlesAllocated s \<and> isSafeInteger delay \<and> 1 \<le> delay
        \<and> length (slides s) < 2 ^ 32
        \<and> activeIndex s = jsInt k \<and> 0 \<le> k \<and> k < int (length (slides s)) \<longrightarrow>
        (let s0 = snd (startAutoplay delay s);
             h = autoplayId s0;
             s1 = snd (nextSlide L0 s0);
             s2 = snd (fireTimer L1 h s1);
             s3 = snd (fireTimer L2 h s2);
             k1 = (if k = int (length (slides s)) - 1 then 0 else k + 1)
         in fst (startAutoplay delay s) = None
            \<and> \<not> skipNextAutoplay s0
            \<and> find (\<lambda>t. t_handle t = h) (timers s0) =
                Some \<lparr>t_handle = h, t_callback = AutoplayCallback,
                      t_delay = delay, t_repeat = True\<rparr>
            \<and> fireTimer L1 h s0 = autoplayCallback L1 s0
            \<and> fst (nextSlide L0 s0) = None
            \<and> skipNextAutoplay s1
            \<and> fireTimer L1 h s1 = (None, s1\<lparr>skipNextAutoplay := False\<rparr>)
            \<and> activeIndex s2 = activeIndex s1
            \<and> fireTimer L2 h s2 = (None, (snd (nextSlide L2 s2))\<lparr>skipNextAutoplay := False\<rparr>)
            \<and> activeIndex s1 = jsInt k1
            \<and> activeIndex s3 = jsInt (if k1 = int (length (slides s)) - 1 then 0 else k1 + 1))"
  proof
    assume a: "handlesAllocated s \<and> isSafeInteger delay \<and> 1 \<le> delay
        \<and> length (slides s) < 2 ^ 32
        \<and> activeIndex s = jsInt k \<and> 0 \<le> k \<and> k < int (length (slides s))"
    then have wf: "handlesAllocated s" and d: "isSafeInteger delay" "1 \<le> delay"
      and bound: "length (slides s) < 2 ^ 32"
      and ix: "activeIndex s = jsInt k" and lo: "0 \<le> k" and hi: "k < int (length (slides s))"
      by simp_all
    note S = autoplay_scenario[OF wf d bound ix lo hi]
    show "let s0 = snd (startAutoplay delay s);
             h = autoplayId s0;
             s1 = snd (nextSlide L0 s0);
             s2 = snd (fireTimer L1 h s1);
             s3 = snd (fireTimer L2 h s2);
             k1 = (if k = int (length (slides s)) - 1 then 0 else k + 1)
         in fst (startAutoplay delay s) = None
            \<and> \<not> skipNextAutoplay s0
            \<and> find (\<lambda>t. t_handle t = h) (timers s0) =
                Some \<lparr>t_handle = h, t_callback = AutoplayCallback,
                      t_delay = delay, t_repeat = True\<rparr>
            \<and> fireTimer L1 h s0 = autoplayCallback L1 s0
            \<and> fst (nextSlide L0 s0) = None
            \<and> skipNextAutoplay s1
            \<and> fireTimer L1 h s1 = (None, s1\<lparr>skipNextAutoplay := False\<rparr>)
            \<and> activeIndex s2 = activeIndex s1
            \<and> fireTimer L2 h s2 = (None, (snd (nextSlide L2 s2))\<lparr>skipNextAutoplay := False\<rparr>)
            \<and> activeIndex s1 = jsInt k1
            \<and> activeIndex s3 = jsInt (if k1 = int (length (slides s)) - 1 then 0 else k1 + 1)"
      unfolding Let_def
      using S startAutoplay_keeps(4,5)[OF d, of s]
      by (intro conjI) assumption+
  qed
  show ?thesis
    using inv zero neg skip adv scen by (intro conjI) assumption+
qed

theorem autoplay_tick_suppression_witness:
  "\<not> (isSafeInteger (1 / 2) \<and> 1 \<le> (1 / 2 :: real))
   \<and> startAutoplay (1 / 2) threeSlides =
       (Some (Error ''Autoplay delay must be a safe positive integer''), threeSlides)
   \<and> skipNextAutoplay (threeSlides\<lparr>skipNextAutoplay := True\<rparr>)
   \<and> autoplayCallback pulledLayout (threeSlides\<lparr>skipNextAutoplay := True\<rparr>) =
       (None, threeSlides\<lparr>skipNextAutoplay := False\<rparr>)
   \<and> \<not> skipNextAutoplay threeSlides
   \<and> activeIndex (snd (autoplayCallback pulledLayout threeSlides)) = jsInt 1
   \<and> handlesAllocated threeSlides \<and> isSafeInteger 1000 \<and> (1 :: real) \<le> 1000
   \<and> length (slides threeSlides) < 2 ^ 32
   \<and> activeIndex threeSlides = jsInt 0 \<and> (0 :: int) \<le> 0
   \<and> 0 < int (length (slides threeSlides))
   \<and> (let s0 = snd (startAutoplay 1000 threeSlides);
            h = autoplayId s0;
            s1 = snd (nextSlide pulledLayout s0);
            s2 = snd (fireTimer pulledLayout h s1);
            s3 = snd (fireTimer pulledLayout h s2)
        in h = 1 \<and> activeIndex s1 = jsInt 1 \<and> activeIndex s2 = jsInt 1
           \<and> activeIndex s3 = jsInt 2)"
proof -
  let ?x = "threeSlides\<lparr>skipNextAutoplay := True\<rparr>"
  have half: "\<not> (isSafeInteger (1 / 2) \<and> 1 \<le> (1 / 2 :: real))"
    by simp
  have sk: "skipNextAutoplay ?x" "\<not> skipNextAutoplay threeSlides"
    by (simp_all add: threeSlides_def)
  have d: "isSafeInteger 1000" "(1 :: real) \<le> 1000"
    by (simp_all add: isSafeInteger_def)
  have wf: "handlesAllocated threeSlides"
    by (simp add: handlesAllocated_def threeSlides_def)
  have r: "length (slides threeSlides) < 2 ^ 32" "activeIndex threeSlides = jsInt 0"
    "(0 :: int) \<le> 0" "0 < int (length (slides threeSlides))"
    by (simp_all add: threeSlides_def jsInt_def)
  have n: "length (slides threeSlides) = 3" "lastTimer threeSlides = 0"
    by (simp_all add: threeSlides_def)
  have i1: "startAutoplay (1 / 2) threeSlides =
       (Some (Error ''Autoplay delay must be a safe positive integer''), threeSlides)"
    using autoplay_tick_suppression[where d = "1 / 2" and x = threeSlides] half by blast
  have i2: "autoplayCallback pulledLayout ?x = (None, threeSlides\<lparr>skipNextAutoplay := False\<rparr>)"
    using autoplay_tick_suppression[where x = ?x and L = pulledLayout] sk(1) by simp
  have "fst (nextSlide pulledLayout threeSlides) = None"
    by (rule nextSlide_step(1)[OF r])
  then have i3: "activeIndex (snd (autoplayCallback pulledLayout threeSlides)) = jsInt 1"
    using autoplay_tick_suppression[where x = threeSlides and L = pulledLayout] sk(2)
      nextSlide_step(2)[OF r, of pulledLayout]
    by (cases "nextSlide pulledLayout threeSlides") (simp add: n)
  let ?s0 = "snd (startAutoplay 1000 threeSlides)"
  have h: "autoplayId ?s0 = 1"
    by (simp add: startAutoplay_keeps[OF d] n)
  have i4: "let s0 = snd (startAutoplay 1000 threeSlides);
            h = autoplayId s0;
            s1 = snd (nextSlide pulledLayout s0);
            s2 = snd (fireTimer pulledLayout h s1);
            s3 = snd (fireTimer pulledLayout h s2)
        in h = 1 \<and> activeIndex s1 = jsInt 1 \<and> activeIndex s2 = jsInt 1
           \<and> activeIndex s3 = jsInt 2"
    using autoplay_tick_suppression[where s = threeSlides and delay = 1000
        and ?L0.0 = pulledLayout and ?L1.0 = pulledLayout and ?L2.0 = pulledLayout
        and d = 0 and x = threeSlides and L = pulledLayout and k = 0,
        THEN conjunct2, THEN conjunct2, THEN conjunct2, THEN conjunct2, THEN conjunct2, THEN mp,
        OF conjI[OF wf conjI[OF d(1) conjI[OF d(2) conjI[OF r(1) conjI[OF r(2) conjI[OF r(3) r(4)]]]]]]]
    unfolding Let_def h
    by (elim conjE) (simp add: n)
  show ?thesis
    using half i1 sk i2 i3 wf d r i4 by (intro conjI) assumption+
qed

subsection \<open>Resize\<close>

lemma resizeListener_timers:
  "timers (resizeListener s) =
     (if resizeId s > 0 then filter (\<lambda>t. t_handle t \<noteq> resizeId s) (timers s) else timers s)
     @ [\<lparr>t_handle = Suc (lastTimer s), t_callback = RefreshCallback, t_delay = 500, t_repeat = False\<rparr>]"
  by (simp add: resizeListener_def Let_def setTimeout_def setTimer_def clearTimeout_def)

lemma resizeListener_fields:
  "resizeId (resizeListener s) = Suc (lastTimer s)"
  "lastTimer (resizeListener s) = Suc (lastTimer s)"
  "listeners (resizeListener s) = listeners s"
  by (simp_all add: resizeListener_def Let_def setTimeout_def setTimer_def clearTimeout_def)

lemma no_pending_without_handle:
  assumes "handlesAllocated s" "resizeTimerTracked s"
  shows "filter (\<lambda>t. t_callback t = RefreshCallback)
           (if resizeId s > 0 then filter (\<lambda>t. t_handle t \<noteq> resizeId s) (timers s) else timers s) = []"
proof -
  have "\<forall>t \<in> set (timers s). t_callback t = RefreshCallback \<longrightarrow> t_handle t = resizeId s \<and> 0 < resizeId s"
    using assms by (auto simp add: handlesAllocated_def resizeTimerTracked_def)
  then show ?thesis
    by (auto simp add: filter_empty_conv)
qed

lemma resizeListener_pending:
  assumes "handlesAllocated s" "resizeTimerTracked s"
  shows "resizePending (resizeListener s) =
     [\<lparr>t_handle = Suc (lastTimer s), t_callback = RefreshCallback, t_delay = 500, t_repeat = False\<rparr>]"
  unfolding resizePending_def resizeListener_timers filter_append
    no_pending_without_handle[OF assms]
  by simp

lemma resizeListener_invariant:
  assumes "handlesAllocated s" "resizeTimerTracked s"
  shows "handlesAllocated (resizeListener s)" and "resizeTimerTracked (resizeListener s)"
proof -
  have old: "\<forall>t \<in> set (timers s). 0 < t_handle t \<and> t_handle t \<le> lastTimer s"
    and dist: "distinct (map t_handle (timers s))"
    using assms(1) by (simp_all add: handlesAllocated_def)
  show "handlesAllocated (resizeListener s)"
    using old dist
    by (auto simp add: handlesAllocated_def resizeListener_timers resizeListener_fields
        distinct_map_filter)
  have "\<forall>t \<in> set (timers s). t_callback t = RefreshCallback \<longrightarrow> t_handle t = resizeId s \<and> 0 < resizeId s"
    using assms by (auto simp add: handlesAllocated_def resizeTimerTracked_def)
  then show "resizeTimerTracked (resizeListener s)"
    by (auto simp add: resizeTimerTracked_def resizeListener_timers resizeListener_fields)
qed

lemma resizeListener_armed:
  assumes "handlesAllocated s" "resizeTimerTracked s"
  shows "resizeArmed (resizeListener s)"
  by (simp add: resizeArmed_def resizeListener_pending[OF assms] resizeListener_fields)

lemma invokeListeners_resize:
  assumes "handlesAllocated s" "resizeTimerTracked s"
  shows "handlesAllocated (snd (invokeListeners L Resize ls s))
       \<and> resizeTimerTracked (snd (invokeListeners L Resize ls s))
       \<and> listeners (snd (invokeListeners L Resize ls s)) = listeners s
       \<and> lastTimer s \<le> lastTimer (snd (invokeListeners L Resize ls s))
       \<and> (resizeArmed s \<and> (\<forall>l \<in> set ls. l \<notin> set (listeners s))
            \<longrightarrow> snd (invokeListeners L Resize ls s) = s)
       \<and> ((\<exists>l \<in> set ls. l \<in> set (listeners s))
            \<longrightarrow> resizeArmed (snd (invokeListeners L Resize ls s))
                \<and> lastTimer s < lastTimer (snd (invokeListeners L Resize ls s)))"
  using assms
proof (induction ls arbitrary: s)
  case Nil
  then show ?case by simp
next
  case (Cons l ls)
  show ?case
  proof (cases "l \<in> set (listeners s)")
    case False
    then show ?thesis using Cons.IH[OF Cons.prems] by simp
  next
    case True
    let ?s1 = "resizeListener s"
    have wf1: "handlesAllocated ?s1" "resizeTimerTracked ?s1"
      by (rule resizeListener_invariant[OF Cons.prems])+
    have armed1: "resizeArmed ?s1"
      by (rule resizeListener_armed[OF Cons.prems])
    have step: "snd (invokeListeners L Resize (l # ls) s) = snd (invokeListeners L Resize ls ?s1)"
      using True by (simp add: split_beta)
    note IH = Cons.IH[OF wf1]
    have later: "resizeArmed (snd (invokeListeners L Resize ls ?s1))"
    proof (cases "\<exists>l \<in> set ls. l \<in> set (listeners ?s1)")
      case True
      then show ?thesis using IH by blast
    next
      case False
      then have "snd (invokeListeners L Resize ls ?s1) = ?s1"
        using IH armed1 by blast
      then show ?thesis using armed1 by simp
    qed
    have "lastTimer s < lastTimer ?s1"
      by (simp add: resizeListener_fields)
    then have "lastTimer s < lastTimer (snd (invokeListeners L Resize ls ?s1))"
      using IH by linarith
    then show ?thesis
      using True IH later unfolding step by (simp add: resizeListener_fields)
  qed
qed

lemma dispatchEvent_resize:
  assumes "handlesAllocated s" "resizeTimerTracked s"
    and "\<lparr>l_target = Window, l_type = resize, l_signal = None\<rparr> \<in> set (listeners s)"
  shows "handlesAllocated (snd (dispatchEvent L Resize s))"
    and "resizeTimerTracked (snd (dispatchEvent L Resize s))"
    and "listeners (snd (dispatchEvent L Resize s)) = listeners s"
    and "resizeArmed (snd (dispatchEvent L Resize s))"
    and "lastTimer s < lastTimer (snd (dispatchEvent L Resize s))"
proof -
  let ?ls = "filter (\<lambda>l. l_target l = eventTarget Resize \<and> l_type l = eventType Resize) (listeners s)"
  have "\<exists>l \<in> set ?ls. l \<in> set (listeners s)"
    using assms(3) by (intro bexI[of _ "\<lparr>l_target = Window, l_type = resize, l_signal = None\<rparr>"]) simp_all
  then show "handlesAllocated (snd (dispatchEvent L Resize s))"
    and "resizeTimerTracked (snd (dispatchEvent L Resize s))"
    and "listeners (snd (dispatchEvent L Resize s)) = listeners s"
    and "resizeArmed (snd (dispatchEvent L Resize s))"
    and "lastTimer s < lastTimer (snd (dispatchEvent L Resize s))"
    using invokeListeners_resize[OF assms(1,2), of L ?ls]
    unfolding dispatchEvent_def by blast+
qed

lemma dispatchAll_resize:
  assumes "handlesAllocated s" "resizeTimerTracked s"
    and "\<lparr>l_target = Window, l_type = resize, l_signal = None\<rparr> \<in> set (listeners s)"
    and "resizeArmed s \<and> lastTimer s0 < lastTimer s \<or> 0 < n \<and> lastTimer s0 \<le> lastTimer s"
  shows "resizeArmed (dispatchAll L (replicate n Resize) s)
       \<and> lastTimer s0 < lastTimer (dispatchAll L (replicate n Resize) s)
       \<and> handlesAllocated (dispatchAll L (replicate n Resize) s)"
  using assms
proof (induction n arbitrary: s)
  case 0
  then show ?case by simp
next
  case (Suc n)
  let ?s1 = "snd (dispatchEvent L Resize s)"
  note D = dispatchEvent_resize[OF Suc.prems(1,2,3), of L]
  have "lastTimer s0 < lastTimer ?s1"
    using Suc.prems(4) D(5) by linarith
  then have "resizeArmed ?s1 \<and> lastTimer s0 < lastTimer ?s1 \<or> 0 < n \<and> lastTimer s0 \<le> lastTimer ?s1"
    using D(4) by simp
  from Suc.IH[OF D(1) D(2) _ this] Suc.prems(3) D(3)
  show ?case by simp
qed

lemma find_distinct_handle:
  assumes "distinct (map t_handle ts)" "T \<in> set ts"
  shows "find (\<lambda>t. t_handle t = t_handle T) ts = Some T"
  using assms by (induction ts) (auto simp add: rev_image_eqI)

lemma refresh_timers:
  "timers (snd (refresh L s)) =
     (if resizeId s > 0 then filter (\<lambda>t. t_handle t \<noteq> resizeId s) (timers s) else timers s)"
  "resizeId (snd (refresh L s)) = 0"
  by (simp_all add: refresh_def Let_def updateRailWidth_def clearTimeout_def slideTransition_fields)

lemma fireTimer_resize:
  assumes "handlesAllocated s" "resizeArmed s"
  shows "fireTimer L (resizeId s) s = refresh L (clearTimeout (resizeId s) s)"
    and "resizePending (snd (fireTimer L (resizeId s) s)) = []"
    and "resizeId (snd (fireTimer L (resizeId s) s)) = 0"
proof -
  let ?T = "\<lparr>t_handle = resizeId s, t_callback = RefreshCallback, t_delay = 500, t_repeat = False\<rparr>"
  have pend: "resizePending s = [?T]"
    using assms(2) by (simp add: resizeArmed_def)
  then have "?T \<in> set (resizePending s)" by simp
  then have mem: "?T \<in> set (timers s)"
    by (simp add: resizePending_def)
  have "distinct (map t_handle (timers s))"
    using assms(1) by (simp add: handlesAllocated_def)
  from find_distinct_handle[OF this mem]
  have found: "find (\<lambda>t. t_handle t = resizeId s) (timers s) = Some ?T" by simp
  show fire: "fireTimer L (resizeId s) s = refresh L (clearTimeout (resizeId s) s)"
    by (simp add: fireTimer_def found)
  have "filter (\<lambda>t. t_callback t = RefreshCallback) (filter (\<lambda>t. t_handle t \<noteq> resizeId s) (timers s))
        = filter (\<lambda>t. t_handle t \<noteq> resizeId s) (resizePending s)"
    by (simp add: resizePending_def conj_commute)
  also have "\<dots> = []" by (simp add: pend)
  finally have gone:
    "filter (\<lambda>t. t_callback t = RefreshCallback) (filter (\<lambda>t. t_handle t \<noteq> resizeId s) (timers s)) = []" .
  have pos: "0 < resizeId s"
    using assms(1) mem by (auto simp add: handlesAllocated_def)
  have "timers (snd (refresh L (clearTimeout (resizeId s) s))) =
          filter (\<lambda>t. t_handle t \<noteq> resizeId s) (timers s)"
    using pos by (simp add: refresh_timers clearTimeout_def)
  then show "resizePending (snd (fireTimer L (resizeId s) s)) = []"
    unfolding fire resizePending_def by (simp only: gone)
  show "resizeId (snd (fireTimer L (resizeId s) s)) = 0"
    unfolding fire by (simp add: refresh_timers)
qed

lemma resizeListener_cancels_and_arms:
  assumes "handlesAllocated s"
  shows "timers (resizeListener s) =
           filter (\<lambda>t. t_handle t \<noteq> resizeId s) (timers s)
           @ [\<lparr>t_handle = Suc (lastTimer s), t_callback = RefreshCallback,
               t_delay = 500, t_repeat = False\<rparr>]"
proof (cases "0 < resizeId s")
  case True
  then show ?thesis by (simp add: resizeListener_timers)
next
  case False
  have "\<forall>t \<in> set (timers s). t_handle t \<noteq> 0"
    using assms by (auto simp add: handlesAllocated_def)
  then have "filter (\<lambda>t. t_handle t \<noteq> resizeId s) (timers s) = timers s"
    using False by (simp add: filter_id_conv)
  then show ?thesis using False by (simp add: resizeListener_timers)
qed

text \<open>
  Claim C9. A resize signal removes the timeout the widget holds and arms a new one of
  500 milliseconds. A burst is a run of \<open>n \<ge> 1\<close> resize events with no timer firing in
  between, which is what arriving within the window means for a timeout that has not
  fired. After a burst, on a widget that keeps track of its timers and has the resize
  listener registered, exactly one reconciliation is pending: it is held in \<open>resizeId\<close>,
  it is the handle allocated last, and it was not pending before the burst. When it
  fires, \<open>refresh\<close> runs, no reconciliation is pending any more, and \<open>resizeId\<close> is 0: one
  pass for the whole burst.
\<close>

theorem resize_debounced:
  assumes "handlesAllocated s" and "resizeTimerTracked s"
    and "\<lparr>l_target = Window, l_type = resize, l_signal = None\<rparr> \<in> set (listeners s)"
    and "1 \<le> n"
  shows "timers (resizeListener s) =
           filter (\<lambda>t. t_handle t \<noteq> resizeId s) (timers s)
           @ [\<lparr>t_handle = Suc (lastTimer s), t_callback = RefreshCallback,
               t_delay = 500, t_repeat = False\<rparr>]
       \<and> (let s' = dispatchAll L (replicate n Resize) s in
            resizePending s' =
              [\<lparr>t_handle = resizeId s', t_callback = RefreshCallback,
                t_delay = 500, t_repeat = False\<rparr>]
            \<and> resizeId s' = lastTimer s'
            \<and> lastTimer s < resizeId s'
            \<and> fireTimer L' (resizeId s') s' = refresh L' (clearTimeout (resizeId s') s')
            \<and> resizePending (snd (fireTimer L' (resizeId s') s')) = []
            \<and> resizeId (snd (fireTimer L' (resizeId s') s')) = 0)"
proof -
  let ?s' = "dispatchAll L (replicate n Resize) s"
  have "resizeArmed s \<and> lastTimer s < lastTimer s \<or> 0 < n \<and> lastTimer s \<le> lastTimer s"
    using assms(4) by simp
  from dispatchAll_resize[OF assms(1,2,3) this, of L]
  have armed: "resizeArmed ?s'" and later: "lastTimer s < lastTimer ?s'"
    and wf: "handlesAllocated ?s'"
    by simp_all
  have pend: "resizePending ?s' =
      [\<lparr>t_handle = resizeId ?s', t_callback = RefreshCallback, t_delay = 500, t_repeat = False\<rparr>]"
    and last: "resizeId ?s' = lastTimer ?s'"
    using armed by (simp_all add: resizeArmed_def)
  show ?thesis
    unfolding Let_def
    using resizeListener_cancels_and_arms[OF assms(1)] pend last later
      fireTimer_resize[OF wf armed, of L']
    by simp
qed

theorem resize_debounced_witness:
  "handlesAllocated threeSlides \<and> resizeTimerTracked threeSlides
   \<and> \<lparr>l_target = Window, l_type = resize, l_signal = None\<rparr> \<in> set (listeners threeSlides)
   \<and> timers (dispatchAll pulledLayout [Resize, Resize, Resize] threeSlides) =
       [\<lparr>t_handle = 3, t_callback = RefreshCallback, t_delay = 500, t_repeat = False\<rparr>]
   \<and> resizeId (dispatchAll pulledLayout [Resize, Resize, Resize] threeSlides) = 3
   \<and> resizePending (snd (fireTimer pulledLayout 3
         (dispatchAll pulledLayout [Resize, Resize, Resize] threeSlides))) = []
   \<and> resizeId (snd (fireTimer pulledLayout 3
         (dispatchAll pulledLayout [Resize, Resize, Resize] threeSlides))) = 0"
proof -
  have a: "handlesAllocated threeSlides" "resizeTimerTracked threeSlides"
    by (simp_all add: handlesAllocated_def resizeTimerTracked_def threeSlides_def)
  have b: "\<lparr>l_target = Window, l_type = resize, l_signal = None\<rparr> \<in> set (listeners threeSlides)"
    by (simp add: threeSlides_def)
  have c: "(1 :: nat) \<le> Suc (Suc (Suc 0))" by simp
  have r: "replicate (Suc (Suc (Suc 0))) Resize = [Resize, Resize, Resize]" by simp
  let ?s' = "dispatchAll pulledLayout [Resize, Resize, Resize] threeSlides"
  have t: "timers ?s' =
       [\<lparr>t_handle = 3, t_callback = RefreshCallback, t_delay = 500, t_repeat = False\<rparr>]"
    and i: "resizeId ?s' = 3"
    by (simp_all add: threeSlides_def dispatchEvent_def resizeListener_def Let_def
        setTimeout_def setTimer_def clearTimeout_def)
  show ?thesis
    using resize_debounced[OF a b c, of pulledLayout pulledLayout] a b t
    unfolding Let_def r i
    by (elim conjE) simp
qed


subsection \<open>Disabling dragging\<close>

lemma dragEnd_closed:
  "beingDraggedRemote s = None \<Longrightarrow> dragEnd L s = (None, s)"
  by (simp add: dragEnd_def)

lemma slideTransition_style:
  "railStyle_transition (snd (slideTransition L s)) = railStyle_transition s"
  by (simp add: slideTransition_def Let_def updateActive_def split: sum.splits)

lemma dragEnd_result:
  assumes "beingDraggedRemote s = Some c" "slides s \<noteq> []"
  shows "fst (dragEnd L s) = None"
    and "railStyle_transition (snd (dragEnd L s)) = ''''"
    and "touchId (snd (dragEnd L s)) = 0"
    and "beingDraggedRemote (snd (dragEnd L s)) = None"
    and "draggableRemote (snd (dragEnd L s)) = draggableRemote s"
    and "listeners (snd (dragEnd L s)) = filter (\<lambda>l. l_signal l \<noteq> Some c) (listeners s)"
    and "activeIndex (snd (dragEnd L s)) =
           jsInt (thresholdRule (L (sessionClosed c s)) (length (slides s)))"
proof -
  let ?g = "L (sessionClosed c s)"
  let ?s5 = "(sessionClosed c s)\<lparr>activeIndex := jsInt (thresholdRule ?g (length (slides s)))\<rparr>"
  have eq: "dragEnd L s = slideTransition L ?s5"
    by (rule dragEnd_open[OF assms])
  have "0 < length (slides s)" using assms(2) by simp
  from thresholdRule_range[OF this, of ?g]
  show "fst (dragEnd L s) = None"
    unfolding eq
    by (intro slideTransition_returns[where k = "thresholdRule ?g (length (slides s))"])
      (simp_all add: sessionClosed_fields)
  show "railStyle_transition (snd (dragEnd L s)) = ''''"
    and "touchId (snd (dragEnd L s)) = 0"
    and "beingDraggedRemote (snd (dragEnd L s)) = None"
    and "draggableRemote (snd (dragEnd L s)) = draggableRemote s"
    and "listeners (snd (dragEnd L s)) = filter (\<lambda>l. l_signal l \<noteq> Some c) (listeners s)"
    and "activeIndex (snd (dragEnd L s)) =
           jsInt (thresholdRule (L (sessionClosed c s)) (length (slides s)))"
    unfolding eq
    by (simp_all add: slideTransition_fields slideTransition_style sessionClosed_fields)
qed

lemma disableDragging_mid_drag:
  assumes "draggableRemote s = Some d" "beingDraggedRemote s = Some c" "slides s \<noteq> []"
  shows "disableDragging L s = (None, (abort d (snd (dragEnd L s)))\<lparr>draggableRemote := None\<rparr>)"
proof -
  obtain r s1 where de: "dragEnd L s = (r, s1)" by (cases "dragEnd L s")
  have "r = None" "draggableRemote s1 = Some d"
    using dragEnd_result(1,5)[OF assms(2,3), of L] de assms(1) by simp_all
  then show ?thesis
    using assms(1) de by (simp add: disableDragging_def)
qed

text \<open>
  Claim C8. \<open>disableDragging\<close> on a widget whose dragging is not enabled changes nothing,
  and \<open>dragEnd\<close> on a widget without an open session changes nothing and throws nothing.
  When dragging is enabled by controller \<open>d\<close>, a session \<open>c\<close> is open and there is at least
  one slide, \<open>disableDragging\<close> is \<open>dragEnd\<close>, which is all the mouse-up listener does,
  followed by the abort of \<open>d\<close>: the transition of the rail is restored, no touch is
  tracked, the session is closed, the index of the threshold rule is committed, and the
  listeners of the session and then those of \<open>d\<close> are gone.
\<close>

theorem disableDragging_ends_drag_first:
  "(draggableRemote s = None \<longrightarrow> disableDragging L s = (None, s))
   \<and> (beingDraggedRemote s = None \<longrightarrow> dragEnd L s = (None, s))
   \<and> (draggableRemote s = Some d \<and> beingDraggedRemote s = Some c \<and> slides s \<noteq> [] \<longrightarrow>
        mouseupListener L s = dragEnd L s
        \<and> fst (dragEnd L s) = None
        \<and> disableDragging L s = (None, (abort d (snd (dragEnd L s)))\<lparr>draggableRemote := None\<rparr>)
        \<and> railStyle_transition (snd (disableDragging L s)) = ''''
        \<and> touchId (snd (disableDragging L s)) = 0
        \<and> beingDraggedRemote (snd (disableDragging L s)) = None
        \<and> draggableRemote (snd (disableDragging L s)) = None
        \<and> activeIndex (snd (disableDragging L s)) =
            jsInt (thresholdRule (L (sessionClosed c s)) (length (slides s)))
        \<and> listeners (snd (disableDragging L s)) =
            filter (\<lambda>l. l_signal l \<noteq> Some d)
              (filter (\<lambda>l. l_signal l \<noteq> Some c) (listeners s)))"
proof -
  have off: "draggableRemote s = None \<longrightarrow> disableDragging L s = (None, s)"
    by (simp add: disableDragging_def)
  have closed: "beingDraggedRemote s = None \<longrightarrow> dragEnd L s = (None, s)"
    by (simp add: dragEnd_closed)
  have mid: "draggableRemote s = Some d \<and> beingDraggedRemote s = Some c \<and> slides s \<noteq> [] \<longrightarrow>
        mouseupListener L s = dragEnd L s
        \<and> fst (dragEnd L s) = None
        \<and> disableDragging L s = (None, (abort d (snd (dragEnd L s)))\<lparr>draggableRemote := None\<rparr>)
        \<and> railStyle_transition (snd (disableDragging L s)) = ''''
        \<and> touchId (snd (disableDragging L s)) = 0
        \<and> beingDraggedRemote (snd (disableDragging L s)) = None
        \<and> draggableRemote (snd (disableDragging L s)) = None
        \<and> activeIndex (snd (disableDragging L s)) =
            jsInt (thresholdRule (L (sessionClosed c s)) (length (slides s)))
        \<and> listeners (snd (disableDragging L s)) =
            filter (\<lambda>l. l_signal l \<noteq> Some d)
              (filter (\<lambda>l. l_signal l \<noteq> Some c) (listeners s))"
  proof
    assume "draggableRemote s = Some d \<and> beingDraggedRemote s = Some c \<and> slides s \<noteq> []"
    then have a: "draggableRemote s = Some d" "beingDraggedRemote s = Some c" "slides s \<noteq> []"
      by simp_all
    note R = dragEnd_result[OF a(2,3), of L]
    note D = disableDragging_mid_drag[OF a, of L]
    show "mouseupListener L s = dragEnd L s
        \<and> fst (dragEnd L s) = None
        \<and> disableDragging L s = (None, (abort d (snd (dragEnd L s)))\<lparr>draggableRemote := None\<rparr>)
        \<and> railStyle_transition (snd (disableDragging L s)) = ''''
        \<and> touchId (snd (disableDragging L s)) = 0
        \<and> beingDraggedRemote (snd (disableDragging L s)) = None
        \<and> draggableRemote (snd (disableDragging L s)) = None
        \<and> activeIndex (snd (disableDragging L s)) =
            jsInt (thresholdRule (L (sessionClosed c s)) (length (slides s)))
        \<and> listeners (snd (disableDragging L s)) =
            filter (\<lambda>l. l_signal l \<noteq> Some d)
              (filter (\<lambda>l. l_signal l \<noteq> Some c) (listeners s))"
      by (simp add: D R abort_def mouseupListener_def)
  qed
  show ?thesis
    using off closed mid by (intro conjI) assumption+
qed

theorem disableDragging_ends_drag_first_witness:
  "draggableRemote (dragStart 200 threeSlides) = Some 1
   \<and> beingDraggedRemote (dragStart 200 threeSlides) = Some 2
   \<and> slides (dragStart 200 threeSlides) \<noteq> []
   \<and> fst (disableDragging pulledLayout (dragStart 200 threeSlides)) = None
   \<and> activeIndex (snd (disableDragging pulledLayout (dragStart 200 threeSlides))) = jsInt 1
   \<and> listeners (snd (disableDragging pulledLayout (dragStart 200 threeSlides))) =
       [\<lparr>l_target = Window, l_type = resize, l_signal = None\<rparr>]
   \<and> draggableRemote (threeSlides\<lparr>draggableRemote := None\<rparr>) = None
   \<and> disableDragging pulledLayout (threeSlides\<lparr>draggableRemote := None\<rparr>) =
       (None, threeSlides\<lparr>draggableRemote := None\<rparr>)
   \<and> beingDraggedRemote threeSlides = None
   \<and> dragEnd pulledLayout threeSlides = (None, threeSlides)"
proof -
  let ?s = "dragStart 200 threeSlides"
  let ?o = "threeSlides\<lparr>draggableRemote := None\<rparr>"
  have a: "draggableRemote ?s = Some 1" "beingDraggedRemote ?s = Some 2" "slides ?s \<noteq> []"
    by (simp_all add: dragStart_def threeSlides_def newAbortController_def addEventListener_def)
  have n: "length (slides ?s) = 3"
    by (simp add: dragStart_def threeSlides_def newAbortController_def addEventListener_def)
  have ls: "filter (\<lambda>l. l_signal l \<noteq> Some 1) (filter (\<lambda>l. l_signal l \<noteq> Some 2) (listeners ?s)) =
       [\<lparr>l_target = Window, l_type = resize, l_signal = None\<rparr>]"
    by (simp add: dragStart_def threeSlides_def newAbortController_def addEventListener_def)
  have th: "thresholdRule (pulledLayout x) 3 = 1" for x
    by (rule thresholdRule_second) (simp_all add: pulledLayout_def)
  have o: "draggableRemote ?o = None" "beingDraggedRemote threeSlides = None"
    by (simp_all add: threeSlides_def)
  note M = disableDragging_ends_drag_first[of ?s pulledLayout 1 2,
      THEN conjunct2, THEN conjunct2, THEN mp, OF conjI[OF a(1) conjI[OF a(2) a(3)]]]
  have m1: "fst (disableDragging pulledLayout ?s) = None"
    using M by (elim conjE) simp
  have m2: "activeIndex (snd (disableDragging pulledLayout ?s)) = jsInt 1"
    using M by (elim conjE) (simp add: n th)
  have m3: "listeners (snd (disableDragging pulledLayout ?s)) =
       [\<lparr>l_target = Window, l_type = resize, l_signal = None\<rparr>]"
    using M ls by (elim conjE) simp
  have o1: "disableDragging pulledLayout ?o = (None, ?o)"
    using disableDragging_ends_drag_first[of ?o pulledLayout 1 2] o(1) by blast
  have o2: "dragEnd pulledLayout threeSlides = (None, threeSlides)"
    using disableDragging_ends_drag_first[of threeSlides pulledLayout 1 2] o(2) by blast
  show ?thesis
    using a m1 m2 m3 o o1 o2 by (intro conjI) assumption+
qed


subsection \<open>Starting a drag, and the touch that is tracked\<close>

lemma dragStart_active:
  "beingDraggedRemote s \<noteq> None \<Longrightarrow> dragStart x s = s"
  by (simp add: dragStart_def)

lemma dragStart_idle:
  assumes "beingDraggedRemote s = None"
  shows "beingDraggedRemote (dragStart x s) = Some (Suc (lastController s))"
    and "touchId (dragStart x s) = touchId s"
    and "dragStartingPoint (dragStart x s) = x"
    and "railStyle_transition (dragStart x s) = ''all 0s linear 0s''"
    and "draggableRemote (dragStart x s) = draggableRemote s"
    and "slides (dragStart x s) = slides s"
    and "listeners (dragStart x s) = listeners s @
          [\<lparr>l_target = Window, l_type = touchmove, l_signal = Some (Suc (lastController s))\<rparr>,
           \<lparr>l_target = Window, l_type = touchend, l_signal = Some (Suc (lastController s))\<rparr>,
           \<lparr>l_target = Rail, l_type = mousemove, l_signal = Some (Suc (lastController s))\<rparr>,
           \<lparr>l_target = Rail, l_type = mouseup, l_signal = Some (Suc (lastController s))\<rparr>,
           \<lparr>l_target = Rail, l_type = mouseleave, l_signal = Some (Suc (lastController s))\<rparr>]"
  using assms
  by (simp_all add: dragStart_def Let_def newAbortController_def addEventListener_def)

lemma mousedown_ignored:
  "beingDraggedRemote s \<noteq> None \<Longrightarrow> mousedownListener x s = (None, s)"
  by (simp add: mousedownListener_def dragStart_active)

lemma touchstart_ignored_tracked:
  "touchId s \<noteq> 0 \<Longrightarrow> touchstartListener ts s = (None, s)"
  by (simp add: touchstartListener_def)

lemma touchstart_untracked_active:
  "beingDraggedRemote s \<noteq> None \<Longrightarrow> touchId s = 0 \<Longrightarrow>
   touchstartListener (t # ts) s = (None, s\<lparr>touchId := touch_identifier t\<rparr>)"
  by (simp add: touchstartListener_def dragStart_active)

lemma dragEnd_closes:
  "beingDraggedRemote (snd (dragEnd L s)) = None"
proof (cases "beingDraggedRemote s")
  case None
  then show ?thesis by (simp add: dragEnd_closed)
next
  case (Some c)
  show ?thesis
    unfolding dragEnd_unfold[OF Some]
    by (simp add: slideTransition_fields sessionClosed_fields split: sum.splits)
qed

lemma disableDragging_closes:
  "draggableRemote s \<noteq> None \<Longrightarrow> beingDraggedRemote (snd (disableDragging L s)) = None"
  using dragEnd_closes[of L s]
  by (cases "dragEnd L s")
    (auto simp add: disableDragging_def abort_def split: option.splits)

lemma findTouch_untracked:
  "touchId s = 0 \<Longrightarrow> findTouch touches s = None"
  by (simp add: findTouch_def)

lemma findTouch_zero_only:
  "\<forall>u \<in> set us. touch_identifier u = 0 \<Longrightarrow> findTouch us s = None"
  by (auto simp add: findTouch_def find_None_iff)

lemma touch_listeners_untracked:
  assumes "touchId s = 0" "touchMoveOrEnd ev"
  shows "callListener L ev s = (None, s)"
  using assms
  by (cases ev) (simp_all add: touchmoveListener_def touchendListener_def findTouch_untracked)

lemma invokeListeners_ignored:
  "callListener L ev s = (None, s) \<Longrightarrow> invokeListeners L ev ls s = ([], s)"
  by (induction ls) simp_all

lemma dispatchAll_touch_untracked:
  "touchId s = 0 \<Longrightarrow> list_all touchMoveOrEnd evs \<Longrightarrow> dispatchAll L evs s = s"
  by (induction evs)
    (simp_all add: dispatchEvent_def invokeListeners_ignored touch_listeners_untracked)

lemma touchstart_zero_idle:
  assumes "beingDraggedRemote s = None" "touchId s = 0" "touch_identifier t = 0"
  shows "touchstartListener (t # ts) s = (None, dragStart (touch_clientX t) s)"
proof -
  have "s\<lparr>touchId := touch_identifier t\<rparr> = s"
    using assms(2,3) by simp
  then show ?thesis
    using assms(2) by (simp add: touchstartListener_def)
qed

lemma dispatch_single:
  assumes "filter (\<lambda>l. l_target l = eventTarget ev \<and> l_type l = eventType ev) (listeners s) = [l]"
  shows "snd (dispatchEvent L ev s) = snd (callListener L ev s)"
proof -
  have "l \<in> set (filter (\<lambda>l. l_target l = eventTarget ev \<and> l_type l = eventType ev) (listeners s))"
    by (simp add: assms)
  then have "l \<in> set (listeners s)" by simp
  then show ?thesis
    by (simp add: dispatchEvent_def assms split_beta)
qed

lemma threeSlides_fields:
  "beingDraggedRemote threeSlides = None"
  "touchId threeSlides = 0"
  "lastController threeSlides = 1"
  "draggableRemote threeSlides = Some 1"
  "slides threeSlides \<noteq> []"
  "length (slides threeSlides) = 3"
  "listeners threeSlides =
     [\<lparr>l_target = Rail, l_type = touchstart, l_signal = Some 1\<rparr>,
      \<lparr>l_target = Rail, l_type = mousedown, l_signal = Some 1\<rparr>,
      \<lparr>l_target = Window, l_type = resize, l_signal = None\<rparr>]"
  by (simp_all add: threeSlides_def)

text \<open>
  Claim C7. On a widget of three slides, a mouse-down opens the session: controller 2,
  start coordinate 200, no touch tracked. A touch-start of identifier 5 that arrives next,
  while the session is open, leaves the controller and the start coordinate as they are
  but makes 5 the tracked touch, and the touch-end of that touch then closes the session
  the mouse opened. (A mouse-down, or a touch-start while a touch is tracked, arriving
  during a session changes nothing: \<open>mousedown_ignored\<close>, \<open>touchstart_ignored_tracked\<close>.)
\<close>

theorem touchstart_overwrites_touchId_during_mouse_drag:
  "beingDraggedRemote (dispatchAll pulledLayout [MouseDown 200] threeSlides) = Some 2
   \<and> dragStartingPoint (dispatchAll pulledLayout [MouseDown 200] threeSlides) = 200
   \<and> touchId (dispatchAll pulledLayout [MouseDown 200] threeSlides) = 0
   \<and> beingDraggedRemote
       (dispatchAll pulledLayout
          [MouseDown 200, TouchStart [\<lparr>touch_identifier = 5, touch_clientX = 40\<rparr>]] threeSlides)
       = Some 2
   \<and> dragStartingPoint
       (dispatchAll pulledLayout
          [MouseDown 200, TouchStart [\<lparr>touch_identifier = 5, touch_clientX = 40\<rparr>]] threeSlides)
       = 200
   \<and> touchId
       (dispatchAll pulledLayout
          [MouseDown 200, TouchStart [\<lparr>touch_identifier = 5, touch_clientX = 40\<rparr>]] threeSlides)
       = 5
   \<and> beingDraggedRemote
       (dispatchAll pulledLayout
          [MouseDown 200, TouchStart [\<lparr>touch_identifier = 5, touch_clientX = 40\<rparr>],
           TouchEnd [\<lparr>touch_identifier = 5, touch_clientX = 40\<rparr>]] threeSlides)
       = None"
proof -
  let ?t = "\<lparr>touch_identifier = 5, touch_clientX = 40\<rparr>"
  let ?A = "dragStart 200 threeSlides"
  let ?B = "?A\<lparr>touchId := 5\<rparr>"
  note I = dragStart_idle[OF threeSlides_fields(1), of 200]
  have A: "snd (dispatchEvent pulledLayout (MouseDown 200) threeSlides) = ?A"
    by (subst dispatch_single[where l = "\<lparr>l_target = Rail, l_type = mousedown, l_signal = Some 1\<rparr>"])
      (simp_all add: threeSlides_fields mousedownListener_def)
  have openA: "beingDraggedRemote ?A \<noteq> None" "touchId ?A = 0"
    by (simp_all add: I threeSlides_fields)
  have B: "snd (dispatchEvent pulledLayout (TouchStart [?t]) ?A) = ?B"
    by (subst dispatch_single[where l = "\<lparr>l_target = Rail, l_type = touchstart, l_signal = Some 1\<rparr>"])
      (simp_all add: I threeSlides_fields touchstart_untracked_active[OF openA])
  have found: "findTouch [?t] ?B = Some ?t"
    by (simp add: findTouch_def)
  have C: "snd (dispatchEvent pulledLayout (TouchEnd [?t]) ?B) = snd (dragEnd pulledLayout ?B)"
    by (subst dispatch_single[where l = "\<lparr>l_target = Window, l_type = touchend, l_signal = Some 2\<rparr>"])
      (simp_all add: I threeSlides_fields touchendListener_def found)
  show ?thesis
    by (simp add: A B C dragEnd_closes I threeSlides_fields)
qed

lemma dispatch_touch_untracked:
  "touchId s = 0 \<Longrightarrow> touchMoveOrEnd ev \<Longrightarrow> dispatchEvent L ev s = ([], s)"
  by (simp add: dispatchEvent_def invokeListeners_ignored touch_listeners_untracked)

lemma session_kept:
  "beingDraggedRemote (snd (nextSlide L s)) = beingDraggedRemote s"
  "beingDraggedRemote (snd (previousSlide L s)) = beingDraggedRemote s"
  "beingDraggedRemote (snd (changeSlide L index s)) = beingDraggedRemote s"
  "beingDraggedRemote (snd (refresh L s)) = beingDraggedRemote s"
  "beingDraggedRemote (resizeListener s) = beingDraggedRemote s"
  "beingDraggedRemote (stopAutoplay s) = beingDraggedRemote s"
  "beingDraggedRemote (snd (startAutoplay delay s)) = beingDraggedRemote s"
  "beingDraggedRemote (snd (enableDragging s)) = beingDraggedRemote s"
  "beingDraggedRemote (dragUpdate x s) = beingDraggedRemote s"
  "beingDraggedRemote (setFullWidthSlide L flag s) = beingDraggedRemote s"
  by (simp_all add: nextSlide_def previousSlide_def changeSlide_def refresh_def
      resizeListener_def stopAutoplay_def startAutoplay_def enableDragging_def dragUpdate_def
      setFullWidthSlide_def updateRailWidth_def clearTimeout_def clearInterval_def
      setTimeout_def setInterval_def setTimer_def newAbortController_def addEventListener_def
      Let_def slideTransition_fields split_beta)

lemma autoplayCallback_session:
  "beingDraggedRemote (snd (autoplayCallback L s)) = beingDraggedRemote s"
  using session_kept(1)[of L s]
  by (cases "nextSlide L s") (auto simp add: autoplayCallback_def split: option.splits)

lemma fireTimer_session:
  "beingDraggedRemote (snd (fireTimer L h s)) = beingDraggedRemote s"
  by (simp add: fireTimer_def Let_def session_kept autoplayCallback_session clearTimeout_def
      split: option.splits TimerCallback.splits)

lemma changeAnimation_slide_session:
  "beingDraggedRemote (snd (changeAnimation L slide s)) = beingDraggedRemote s"
  by (simp add: changeAnimation_def Let_def session_kept)

lemma callListener_session:
  assumes "beingDraggedRemote s = Some c" "touchMoveOrEnd ev \<longrightarrow> touchId s = 0"
    "\<not> mouseEndOrDisable (Deliver ev)"
  shows "beingDraggedRemote (snd (callListener L ev s)) = Some c"
    and "touchMoveOrEnd ev \<longrightarrow> touchId (snd (callListener L ev s)) = 0"
  using assms
  by (cases ev;
      simp add: touchstartListener_def mousedownListener_def mousemoveListener_def
        touchmoveListener_def touchendListener_def findTouch_untracked dragStart_active
        session_kept split: list.splits)+

lemma invokeListeners_session:
  assumes "beingDraggedRemote s = Some c" "touchMoveOrEnd ev \<longrightarrow> touchId s = 0"
    "\<not> mouseEndOrDisable (Deliver ev)"
  shows "beingDraggedRemote (snd (invokeListeners L ev ls s)) = Some c"
  using assms(1,2)
proof (induction ls arbitrary: s)
  case Nil
  then show ?case by simp
next
  case (Cons l ls)
  note C = callListener_session[OF Cons.prems assms(3), of L]
  show ?case
  proof (cases "l \<in> set (listeners s)")
    case True
    then show ?thesis
      using Cons.IH[OF C] by (simp add: split_beta)
  next
    case False
    then show ?thesis
      using Cons.IH[OF Cons.prems] by simp
  qed
qed

lemma perform_session:
  assumes "beingDraggedRemote s = Some c" "touchId s = 0" "\<not> mouseEndOrDisable a"
  shows "beingDraggedRemote (perform L a s) = Some c"
proof (cases a)
  case (Deliver ev)
  then show ?thesis
    using invokeListeners_session[of s c ev L] assms by (simp add: dispatchEvent_def)
next
  case (CallChangeAnimation n)
  then have "n = slide" using assms(3) by simp
  then show ?thesis
    using assms(1) CallChangeAnimation by (simp add: changeAnimation_slide_session)
qed (use assms in \<open>simp_all add: session_kept fireTimer_session\<close>)

lemma performAll_session:
  assumes "beingDraggedRemote s = Some c" "untrackedRun L as s"
    "list_all (\<lambda>a. \<not> mouseEndOrDisable a) as"
  shows "beingDraggedRemote (performAll L as s) = Some c"
  using assms
proof (induction as arbitrary: s)
  case Nil
  then show ?case by simp
next
  case (Cons a as)
  have "beingDraggedRemote (perform L a s) = Some c"
    using Cons.prems by (intro perform_session) simp_all
  then show ?case
    using Cons.IH[of "perform L a s"] Cons.prems by simp
qed

text \<open>
  Claim C10, as amended. The identifier 0 is also the value of \<open>touchId\<close> when no touch is
  tracked. A touch-start whose first changed touch has identifier 0, arriving when no
  session is open and no touch is tracked, opens a session and leaves \<open>touchId\<close> at 0.
  As long as \<open>touchId\<close> is 0, in that state and in any other, \<open>findTouch\<close> finds no touch
  in any list and every touch-move and touch-end event, alone or in a sequence, leaves
  the widget as it is and reports nothing; a touch-move or touch-end event that carries
  only touches of identifier 0 is ignored whatever \<open>touchId\<close> is. And as long as \<open>touchId\<close>
  is 0, an open session can only be ended by a mouse-up or mouse-leave event or by
  \<open>disableDragging\<close>: a run of actions that find \<open>touchId\<close> at 0, none of which is such
  an event or runs \<open>disableDragging\<close>, ends with the same session open. The listeners for
  mouse-up and mouse-leave are registered when the session opens and do close it, and so
  does \<open>disableDragging\<close> when dragging is enabled.
\<close>

theorem touch_zero_session:
  "(beingDraggedRemote s = None \<and> touchId s = 0 \<and> touch_identifier t = 0 \<longrightarrow>
      (let s1 = snd (touchstartListener (t # ts) s) in
         fst (touchstartListener (t # ts) s) = None
         \<and> beingDraggedRemote s1 = Some (Suc (lastController s))
         \<and> dragStartingPoint s1 = touch_clientX t
         \<and> touchId s1 = 0
         \<and> findTouch touches s1 = None
         \<and> (list_all touchMoveOrEnd evs \<longrightarrow> dispatchAll L evs s1 = s1)
         \<and> (untrackedRun L as s1 \<and> list_all (\<lambda>a. \<not> mouseEndOrDisable a) as \<longrightarrow>
              beingDraggedRemote (performAll L as s1) = Some (Suc (lastController s)))
         \<and> \<lparr>l_target = Rail, l_type = mouseup, l_signal = Some (Suc (lastController s))\<rparr>
              \<in> set (listeners s1)
         \<and> \<lparr>l_target = Rail, l_type = mouseleave, l_signal = Some (Suc (lastController s))\<rparr>
              \<in> set (listeners s1)
         \<and> beingDraggedRemote (snd (mouseupListener L s1)) = None
         \<and> beingDraggedRemote (snd (mouseleaveListener L s1)) = None
         \<and> (draggableRemote s \<noteq> None \<longrightarrow>
              beingDraggedRemote (snd (disableDragging L s1)) = None)))
   \<and> (touchId x = 0 \<longrightarrow>
        findTouch touches x = None
        \<and> (touchMoveOrEnd ev \<longrightarrow> dispatchEvent L ev x = ([], x))
        \<and> (list_all touchMoveOrEnd evs \<longrightarrow> dispatchAll L evs x = x))
   \<and> (beingDraggedRemote x = Some c \<and> untrackedRun L as x
        \<and> list_all (\<lambda>a. \<not> mouseEndOrDisable a) as \<longrightarrow>
        beingDraggedRemote (performAll L as x) = Some c)
   \<and> ((\<forall>u \<in> set us. touch_identifier u = 0) \<longrightarrow>
        touchmoveListener us x = (None, x) \<and> touchendListener L us x = (None, x))"
proof -
  have start: "beingDraggedRemote s = None \<and> touchId s = 0 \<and> touch_identifier t = 0 \<longrightarrow>
      (let s1 = snd (touchstartListener (t # ts) s) in
         fst (touchstartListener (t # ts) s) = None
         \<and> beingDraggedRemote s1 = Some (Suc (lastController s))
         \<and> dragStartingPoint s1 = touch_clientX t
         \<and> touchId s1 = 0
         \<and> findTouch touches s1 = None
         \<and> (list_all touchMoveOrEnd evs \<longrightarrow> dispatchAll L evs s1 = s1)
         \<and> (untrackedRun L as s1 \<and> list_all (\<lambda>a. \<not> mouseEndOrDisable a) as \<longrightarrow>
              beingDraggedRemote (performAll L as s1) = Some (Suc (lastController s)))
         \<and> \<lparr>l_target = Rail, l_type = mouseup, l_signal = Some (Suc (lastController s))\<rparr>
              \<in> set (listeners s1)
         \<and> \<lparr>l_target = Rail, l_type = mouseleave, l_signal = Some (Suc (lastController s))\<rparr>
              \<in> set (listeners s1)
         \<and> beingDraggedRemote (snd (mouseupListener L s1)) = None
         \<and> beingDraggedRemote (snd (mouseleaveListener L s1)) = None
         \<and> (draggableRemote s \<noteq> None \<longrightarrow>
              beingDraggedRemote (snd (disableDragging L s1)) = None))"
  proof
    assume "beingDraggedRemote s = None \<and> touchId s = 0 \<and> touch_identifier t = 0"
    then have a: "beingDraggedRemote s = None" "touchId s = 0" "touch_identifier t = 0"
      by simp_all
    let ?s1 = "dragStart (touch_clientX t) s"
    have ts: "touchstartListener (t # ts) s = (None, ?s1)"
      by (rule touchstart_zero_idle[OF a])
    note I = dragStart_idle[OF a(1), of "touch_clientX t"]
    have t0: "touchId ?s1 = 0"
      using I(2) a(2) by simp
    have gest: "list_all touchMoveOrEnd evs \<longrightarrow> dispatchAll L evs ?s1 = ?s1"
      using dispatchAll_touch_untracked[OF t0, of evs L] by blast
    have only: "untrackedRun L as ?s1 \<and> list_all (\<lambda>a. \<not> mouseEndOrDisable a) as \<longrightarrow>
              beingDraggedRemote (performAll L as ?s1) = Some (Suc (lastController s))"
      using performAll_session[OF I(1), of L as] by blast
    have dis: "draggableRemote s \<noteq> None \<longrightarrow>
        beingDraggedRemote (snd (disableDragging L ?s1)) = None"
      using disableDragging_closes[of ?s1 L] I(5) by simp
    have "fst (touchstartListener (t # ts) s) = None
         \<and> beingDraggedRemote ?s1 = Some (Suc (lastController s))
         \<and> dragStartingPoint ?s1 = touch_clientX t
         \<and> touchId ?s1 = 0
         \<and> findTouch touches ?s1 = None
         \<and> (list_all touchMoveOrEnd evs \<longrightarrow> dispatchAll L evs ?s1 = ?s1)
         \<and> (untrackedRun L as ?s1 \<and> list_all (\<lambda>a. \<not> mouseEndOrDisable a) as \<longrightarrow>
              beingDraggedRemote (performAll L as ?s1) = Some (Suc (lastController s)))
         \<and> \<lparr>l_target = Rail, l_type = mouseup, l_signal = Some (Suc (lastController s))\<rparr>
              \<in> set (listeners ?s1)
         \<and> \<lparr>l_target = Rail, l_type = mouseleave, l_signal = Some (Suc (lastController s))\<rparr>
              \<in> set (listeners ?s1)
         \<and> beingDraggedRemote (snd (mouseupListener L ?s1)) = None
         \<and> beingDraggedRemote (snd (mouseleaveListener L ?s1)) = None
         \<and> (draggableRemote s \<noteq> None \<longrightarrow>
              beingDraggedRemote (snd (disableDragging L ?s1)) = None)"
      using gest only dis
      by (simp add: ts I a(2) findTouch_untracked[OF t0] mouseupListener_def
          mouseleaveListener_def dragEnd_closes)
    then show "let s1 = snd (touchstartListener (t # ts) s) in
         fst (touchstartListener (t # ts) s) = None
         \<and> beingDraggedRemote s1 = Some (Suc (lastController s))
         \<and> dragStartingPoint s1 = touch_clientX t
         \<and> touchId s1 = 0
         \<and> findTouch touches s1 = None
         \<and> (list_all touchMoveOrEnd evs \<longrightarrow> dispatchAll L evs s1 = s1)
         \<and> (untrackedRun L as s1 \<and> list_all (\<lambda>a. \<not> mouseEndOrDisable a) as \<longrightarrow>
              beingDraggedRemote (performAll L as s1) = Some (Suc (lastController s)))
         \<and> \<lparr>l_target = Rail, l_type = mouseup, l_signal = Some (Suc (lastController s))\<rparr>
              \<in> set (listeners s1)
         \<and> \<lparr>l_target = Rail, l_type = mouseleave, l_signal = Some (Suc (lastController s))\<rparr>
              \<in> set (listeners s1)
         \<and> beingDraggedRemote (snd (mouseupListener L s1)) = None
         \<and> beingDraggedRemote (snd (mouseleaveListener L s1)) = None
         \<and> (draggableRemote s \<noteq> None \<longrightarrow>
              beingDraggedRemote (snd (disableDragging L s1)) = None)"
      unfolding Let_def by (simp add: ts)
  qed
  have untracked: "touchId x = 0 \<longrightarrow>
        findTouch touches x = None
        \<and> (touchMoveOrEnd ev \<longrightarrow> dispatchEvent L ev x = ([], x))
        \<and> (list_all touchMoveOrEnd evs \<longrightarrow> dispatchAll L evs x = x)"
    by (simp add: findTouch_untracked dispatch_touch_untracked dispatchAll_touch_untracked)
  have exclusive: "beingDraggedRemote x = Some c \<and> untrackedRun L as x
        \<and> list_all (\<lambda>a. \<not> mouseEndOrDisable a) as \<longrightarrow>
        beingDraggedRemote (performAll L as x) = Some c"
    using performAll_session[of x c L as] by blast
  have zero: "(\<forall>u \<in> set us. touch_identifier u = 0) \<longrightarrow>
        touchmoveListener us x = (None, x) \<and> touchendListener L us x = (None, x)"
    by (simp add: touchmoveListener_def touchendListener_def findTouch_zero_only)
  show ?thesis
    using start untracked exclusive zero by (intro conjI) assumption+
qed

theorem touch_zero_session_witness:
  "beingDraggedRemote threeSlides = None \<and> touchId threeSlides = 0
   \<and> touch_identifier \<lparr>touch_identifier = 0, touch_clientX = 10\<rparr> = 0
   \<and> list_all touchMoveOrEnd
         [TouchMove [\<lparr>touch_identifier = 0, touch_clientX = 12\<rparr>],
          TouchEnd [\<lparr>touch_identifier = 0, touch_clientX = 12\<rparr>]]
   \<and> touchMoveOrEnd (TouchEnd [\<lparr>touch_identifier = 0, touch_clientX = 12\<rparr>])
   \<and> draggableRemote threeSlides \<noteq> None
   \<and> list_all (\<lambda>u. touch_identifier u = 0) [\<lparr>touch_identifier = 0, touch_clientX = 12\<rparr>]
   \<and> beingDraggedRemote
        (snd (touchstartListener [\<lparr>touch_identifier = 0, touch_clientX = 10\<rparr>] threeSlides)) = Some 2
   \<and> touchId
        (snd (touchstartListener [\<lparr>touch_identifier = 0, touch_clientX = 10\<rparr>] threeSlides)) = 0
   \<and> findTouch [\<lparr>touch_identifier = 0, touch_clientX = 12\<rparr>]
        (snd (touchstartListener [\<lparr>touch_identifier = 0, touch_clientX = 10\<rparr>] threeSlides)) = None
   \<and> dispatchEvent pulledLayout (TouchEnd [\<lparr>touch_identifier = 0, touch_clientX = 12\<rparr>])
        (snd (touchstartListener [\<lparr>touch_identifier = 0, touch_clientX = 10\<rparr>] threeSlides))
       = ([], snd (touchstartListener [\<lparr>touch_identifier = 0, touch_clientX = 10\<rparr>] threeSlides))
   \<and> dispatchAll pulledLayout
         [TouchMove [\<lparr>touch_identifier = 0, touch_clientX = 12\<rparr>],
          TouchEnd [\<lparr>touch_identifier = 0, touch_clientX = 12\<rparr>]]
         (snd (touchstartListener [\<lparr>touch_identifier = 0, touch_clientX = 10\<rparr>] threeSlides))
       = snd (touchstartListener [\<lparr>touch_identifier = 0, touch_clientX = 10\<rparr>] threeSlides)
   \<and> untrackedRun pulledLayout
         [Deliver (TouchMove [\<lparr>touch_identifier = 0, touch_clientX = 12\<rparr>]),
          Deliver (TouchEnd [\<lparr>touch_identifier = 0, touch_clientX = 12\<rparr>]),
          CallNextSlide,
          Deliver (TouchStart [\<lparr>touch_identifier = 7, touch_clientX = 15\<rparr>])]
         (snd (touchstartListener [\<lparr>touch_identifier = 0, touch_clientX = 10\<rparr>] threeSlides))
   \<and> list_all (\<lambda>a. \<not> mouseEndOrDisable a)
         [Deliver (TouchMove [\<lparr>touch_identifier = 0, touch_clientX = 12\<rparr>]),
          Deliver (TouchEnd [\<lparr>touch_identifier = 0, touch_clientX = 12\<rparr>]),
          CallNextSlide,
          Deliver (TouchStart [\<lparr>touch_identifier = 7, touch_clientX = 15\<rparr>])]
   \<and> beingDraggedRemote
        (performAll pulledLayout
           [Deliver (TouchMove [\<lparr>touch_identifier = 0, touch_clientX = 12\<rparr>]),
            Deliver (TouchEnd [\<lparr>touch_identifier = 0, touch_clientX = 12\<rparr>]),
            CallNextSlide,
            Deliver (TouchStart [\<lparr>touch_identifier = 7, touch_clientX = 15\<rparr>])]
           (snd (touchstartListener [\<lparr>touch_identifier = 0, touch_clientX = 10\<rparr>] threeSlides)))
       = Some 2
   \<and> beingDraggedRemote
        (snd (disableDragging pulledLayout
           (snd (touchstartListener [\<lparr>touch_identifier = 0, touch_clientX = 10\<rparr>] threeSlides))))
       = None
   \<and> touchendListener pulledLayout [\<lparr>touch_identifier = 0, touch_clientX = 12\<rparr>]
        (snd (touchstartListener [\<lparr>touch_identifier = 0, touch_clientX = 10\<rparr>] threeSlides))
       = (None, snd (touchstartListener [\<lparr>touch_identifier = 0, touch_clientX = 10\<rparr>] threeSlides))"
proof -
  let ?t = "\<lparr>touch_identifier = 0, touch_clientX = 10\<rparr>"
  let ?u = "\<lparr>touch_identifier = 0, touch_clientX = 12\<rparr>"
  let ?v = "\<lparr>touch_identifier = 7, touch_clientX = 15\<rparr>"
  let ?S = "snd (touchstartListener [?t] threeSlides)"
  let ?run = "[Deliver (TouchMove [?u]), Deliver (TouchEnd [?u]), CallNextSlide,
               Deliver (TouchStart [?v])]"
  have a: "beingDraggedRemote threeSlides = None" "touchId threeSlides = 0"
    "touch_identifier ?t = 0"
    by (simp_all add: threeSlides_fields)
  have b: "list_all touchMoveOrEnd [TouchMove [?u], TouchEnd [?u]]"
    "touchMoveOrEnd (TouchEnd [?u])"
    "draggableRemote threeSlides \<noteq> None" "\<forall>u \<in> set [?u]. touch_identifier u = 0"
    "list_all (\<lambda>u. touch_identifier u = 0) [?u]"
    by (simp_all add: threeSlides_fields)
  have S: "?S = dragStart 10 threeSlides"
    using touchstart_zero_idle[OF a, of "[]"] by simp
  note I = dragStart_idle[OF a(1), of 10]
  have c: "beingDraggedRemote ?S = Some 2" "touchId ?S = 0"
    unfolding S by (simp_all add: I threeSlides_fields)
  have next0: "touchId (snd (nextSlide pulledLayout ?S)) = 0"
    using c(2) by (simp add: nextSlide_def Let_def slideTransition_fields)
  have run: "untrackedRun pulledLayout ?run ?S"
    using c(2) next0 by (simp add: dispatch_touch_untracked)
  have ne: "list_all (\<lambda>a. \<not> mouseEndOrDisable a) ?run"
    by simp
  note T = touch_zero_session[of threeSlides ?t "[]" "[?u]" "[TouchMove [?u], TouchEnd [?u]]"
      pulledLayout ?run ?S "TouchEnd [?u]" 2 "[?u]", unfolded Let_def]
  have first: "findTouch [?u] ?S = None"
    using T c(2) by (elim conjE) blast
  have d1: "dispatchEvent pulledLayout (TouchEnd [?u]) ?S = ([], ?S)"
    using T c(2) b(2) by (elim conjE) blast
  have d: "dispatchAll pulledLayout [TouchMove [?u], TouchEnd [?u]] ?S = ?S"
    using T c(2) b(1) by (elim conjE) blast
  have only: "beingDraggedRemote (performAll pulledLayout ?run ?S) = Some 2"
    using T c(1) run ne by (elim conjE) blast
  have e: "beingDraggedRemote (snd (disableDragging pulledLayout ?S)) = None"
    using T a b(3) by (elim conjE) blast
  have f: "touchendListener pulledLayout [?u] ?S = (None, ?S)"
    using T b(4) by (elim conjE) blast
  show ?thesis
    using a b(1,2,3,5) c first d1 d run ne only e f by (intro conjI) assumption+
qed

text \<open>
  The session a touch of identifier 0 has opened is not closed by the mouse and
  \<open>disableDragging\<close> only: a second touch-start, of identifier 1, becomes the tracked
  touch, \<open>findTouch\<close> then finds it, and its touch-end closes the session. Neither of
  the two actions is a mouse-up, a mouse-leave or a call of \<open>disableDragging\<close>.
\<close>

theorem touch_zero_session_ended_by_later_touch:
  "beingDraggedRemote
     (dispatchAll pulledLayout
        [TouchStart [\<lparr>touch_identifier = 0, touch_clientX = 10\<rparr>]] threeSlides) = Some 2
   \<and> touchId
     (dispatchAll pulledLayout
        [TouchStart [\<lparr>touch_identifier = 0, touch_clientX = 10\<rparr>]] threeSlides) = 0
   \<and> findTouch [\<lparr>touch_identifier = 1, touch_clientX = 25\<rparr>]
     (dispatchAll pulledLayout
        [TouchStart [\<lparr>touch_identifier = 0, touch_clientX = 10\<rparr>],
         TouchStart [\<lparr>touch_identifier = 1, touch_clientX = 20\<rparr>]] threeSlides)
       = Some \<lparr>touch_identifier = 1, touch_clientX = 25\<rparr>
   \<and> beingDraggedRemote
     (dispatchAll pulledLayout
        [TouchStart [\<lparr>touch_identifier = 0, touch_clientX = 10\<rparr>],
         TouchStart [\<lparr>touch_identifier = 1, touch_clientX = 20\<rparr>],
         TouchEnd [\<lparr>touch_identifier = 1, touch_clientX = 25\<rparr>]] threeSlides) = None
   \<and> list_all (\<lambda>a. \<not> mouseEndOrDisable a)
        [Deliver (TouchStart [\<lparr>touch_identifier = 1, touch_clientX = 20\<rparr>]),
         Deliver (TouchEnd [\<lparr>touch_identifier = 1, touch_clientX = 25\<rparr>])]
   \<and> beingDraggedRemote
     (performAll pulledLayout
        [Deliver (TouchStart [\<lparr>touch_identifier = 1, touch_clientX = 20\<rparr>]),
         Deliver (TouchEnd [\<lparr>touch_identifier = 1, touch_clientX = 25\<rparr>])]
        (dispatchAll pulledLayout
           [TouchStart [\<lparr>touch_identifier = 0, touch_clientX = 10\<rparr>]] threeSlides)) = None"
proof -
  let ?t0 = "\<lparr>touch_identifier = 0, touch_clientX = 10\<rparr>"
  let ?t1 = "\<lparr>touch_identifier = 1, touch_clientX = 20\<rparr>"
  let ?t2 = "\<lparr>touch_identifier = 1, touch_clientX = 25\<rparr>"
  let ?A = "dragStart 10 threeSlides"
  let ?B = "?A\<lparr>touchId := 1\<rparr>"
  note I = dragStart_idle[OF threeSlides_fields(1), of 10]
  have A: "snd (dispatchEvent pulledLayout (TouchStart [?t0]) threeSlides) = ?A"
    by (subst dispatch_single[where l = "\<lparr>l_target = Rail, l_type = touchstart, l_signal = Some 1\<rparr>"])
      (simp_all add: threeSlides_fields touchstart_zero_idle)
  have openA: "beingDraggedRemote ?A \<noteq> None" "touchId ?A = 0"
    by (simp_all add: I threeSlides_fields)
  have B: "snd (dispatchEvent pulledLayout (TouchStart [?t1]) ?A) = ?B"
    by (subst dispatch_single[where l = "\<lparr>l_target = Rail, l_type = touchstart, l_signal = Some 1\<rparr>"])
      (simp_all add: I threeSlides_fields touchstart_untracked_active[OF openA])
  have found: "findTouch [?t2] ?B = Some ?t2"
    by (simp add: findTouch_def)
  have C: "snd (dispatchEvent pulledLayout (TouchEnd [?t2]) ?B) = snd (dragEnd pulledLayout ?B)"
    by (subst dispatch_single[where l = "\<lparr>l_target = Window, l_type = touchend, l_signal = Some 2\<rparr>"])
      (simp_all add: I threeSlides_fields touchendListener_def found)
  show ?thesis
    by (simp add: A B C found dragEnd_closes I threeSlides_fields)
qed


subsection \<open>The example widget, and the timer table under the other operations\<close>

text \<open>
  The widget of three slides is what \<open>enableDragging\<close> and the registration of the resize
  listener make of a new widget that has its slides and its animation. The two properties
  of the timer table assumed above hold of it, and \<open>refresh\<close> and \<open>startAutoplay\<close> keep
  them, as the resize listener does.
\<close>

lemma threeSlides_initialised:
  "addResizeListener
     (snd (enableDragging
        (newSlideshow
           \<lparr>slides := replicate 3 \<lparr>el_active = False, el_width = ''100px''\<rparr>,
            animation := Some slide, fullWidthSlide := True,
            railStyle_width := ''100px''\<rparr>))) = threeSlides"
  by (simp add: addResizeListener_def enableDragging_def newSlideshow_def threeSlides_def
      newAbortController_def addEventListener_def)

lemma threeSlides_timers:
  "handlesAllocated threeSlides" "resizeTimerTracked threeSlides"
  by (simp_all add: handlesAllocated_def resizeTimerTracked_def threeSlides_def)

lemma refresh_invariant:
  assumes "handlesAllocated s" "resizeTimerTracked s"
  shows "handlesAllocated (snd (refresh L s))" and "resizeTimerTracked (snd (refresh L s))"
proof -
  have lt: "lastTimer (snd (refresh L s)) = lastTimer s"
    by (simp add: refresh_def Let_def updateRailWidth_def clearTimeout_def
        slideTransition_def updateActive_def split: sum.splits)
  have old: "\<forall>t \<in> set (timers s). 0 < t_handle t \<and> t_handle t \<le> lastTimer s"
    and dist: "distinct (map t_handle (timers s))"
    using assms(1) by (simp_all add: handlesAllocated_def)
  show "handlesAllocated (snd (refresh L s))"
    using old dist
    by (auto simp add: handlesAllocated_def refresh_timers lt distinct_map_filter)
  have "\<forall>t \<in> set (timers s). t_callback t = RefreshCallback \<longrightarrow> t_handle t = resizeId s \<and> 0 < resizeId s"
    using assms by (auto simp add: handlesAllocated_def resizeTimerTracked_def)
  then show "resizeTimerTracked (snd (refresh L s))"
    by (auto simp add: resizeTimerTracked_def refresh_timers)
qed

lemma startAutoplay_invariant:
  assumes "handlesAllocated s" "resizeTimerTracked s"
  shows "handlesAllocated (snd (startAutoplay delay s))"
    and "resizeTimerTracked (snd (startAutoplay delay s))"
proof -
  have old: "\<forall>t \<in> set (timers s). 0 < t_handle t \<and> t_handle t \<le> lastTimer s"
    and dist: "distinct (map t_handle (timers s))"
    and tr: "\<forall>t \<in> set (timers s). t_callback t = RefreshCallback \<longrightarrow> t_handle t = resizeId s"
    using assms by (simp_all add: handlesAllocated_def resizeTimerTracked_def)
  show "handlesAllocated (snd (startAutoplay delay s))"
  proof (cases "isSafeInteger delay \<and> 1 \<le> delay")
    case True
    then show ?thesis
      using old dist
      by (auto simp add: startAutoplay_valid handlesAllocated_def stopAutoplay_fields
          distinct_map_filter)
  next
    case False
    then show ?thesis using assms(1) by (simp add: startAutoplay_invalid)
  qed
  show "resizeTimerTracked (snd (startAutoplay delay s))"
  proof (cases "isSafeInteger delay \<and> 1 \<le> delay")
    case True
    then show ?thesis
      using tr
      by (auto simp add: startAutoplay_valid resizeTimerTracked_def stopAutoplay_fields)
  next
    case False
    then show ?thesis using assms(2) by (simp add: startAutoplay_invalid)
  qed
qed


end
